theory Spec2Isabelle
  imports Complex_Main
begin

section \<open>Python string operations used by the client\<close>

text \<open>
  Strings are character lists. The separators passed to \<open>split\<close> in the source are the
  literals \<open>"__"\<close>, \<open>"offset="\<close>, \<open>"&"\<close> and \<open>"Z"\<close>; Python raises \<open>ValueError\<close> for an
  empty separator, which no call site can pass.
\<close>

definition startswith :: "string \<Rightarrow> string \<Rightarrow> bool" where
  "startswith s pre = (take (length pre) s = pre)"

text \<open>\<open>sub in s\<close>: the substring test.\<close>

fun py_in :: "string \<Rightarrow> string \<Rightarrow> bool" where
  "py_in sub [] = (sub = [])"
| "py_in sub (c # cs) = (startswith (c # cs) sub \<or> py_in sub cs)"

text \<open>
  \<open>s.split(sep)\<close>: scan from the left, cut at every occurrence of \<open>sep\<close> and go on
  behind it, so occurrences never overlap.
\<close>

fun py_split :: "string \<Rightarrow> string \<Rightarrow> string list" where
  "py_split sep [] = [[]]"
| "py_split sep (c # cs) =
     (if startswith (c # cs) sep
      then [] # py_split sep (drop (length sep - 1) cs)
      else (case py_split sep cs of
              [] \<Rightarrow> [[c]]
            | p # ps \<Rightarrow> (c # p) # ps))"

section \<open>Course name parsing (auth.py)\<close>

record course_info =
  ci_name :: string
  ci_course_id :: string
  ci_class_name :: "string option"

text \<open>
  \<open>parse_course_info\<close>: \<open>parts[0]\<close> is the clean name, \<open>parts[1]\<close> the class name; the
  guard \<open>len(parts) > 1\<close> of the source is kept.
\<close>

definition parse_course_info :: "string \<Rightarrow> string \<Rightarrow> course_info" where
  "parse_course_info course_name course_id =
     (let (clean_name, class_name) =
            (if py_in ''__'' course_name
             then (let parts = py_split ''__'' course_name
                   in (hd parts, if length parts > 1 then Some (parts ! 1) else None))
             else (course_name, None));
          clean_id = (if py_in ''__'' course_id then hd (py_split ''__'' course_id) else course_id)
      in \<lparr> ci_name = clean_name, ci_course_id = clean_id, ci_class_name = class_name \<rparr>)"

section \<open>Transport, errors and the request history (client.py)\<close>

text \<open>
  \<open>BBAPIError\<close> carries a message, the status code and the response text; \<open>BBAuthError\<close> a
  message. \<open>TypeError\<close> stands for the error Python raises when an item is assigned into a
  decoded JSON value that is not an object.
\<close>

datatype error =
    BBAPIError string "nat option" "string option"
  | BBAuthError string
  | TypeError

text \<open>
  Query parameters are a dictionary in insertion order. \<open>params[k] = v\<close> overwrites the
  value of an existing key in place and appends a new key at the end.
\<close>

type_synonym params = "(string \<times> string) list"

fun dict_set :: "'k \<Rightarrow> 'v \<Rightarrow> ('k \<times> 'v) list \<Rightarrow> ('k \<times> 'v) list" where
  "dict_set k v [] = [(k, v)]"
| "dict_set k v ((k', v') # d) = (if k' = k then (k, v) # d else (k', v') # dict_set k v d)"

definition dict_get :: "('k \<times> 'v) list \<Rightarrow> 'k \<Rightarrow> 'v option" where
  "dict_get d k = map_of d k"

text \<open>
  \<open>session.get(url, params=params)\<close> is the external HTTP capability. Its answer may depend
  on everything requested before, so a session is a function of the history of requests
  (oldest first) and of the current request. It answers with a status code, the decoded
  body and the raw text, or fails with a \<open>requests.RequestException\<close> (which covers a body
  that does not decode). The body type \<open>'b\<close> is the shape the endpoint returns.
\<close>

type_synonym request = "string \<times> params option"

datatype 'b http_result = Response nat 'b string | RequestException string

type_synonym 'b session = "request list \<Rightarrow> string \<Rightarrow> params option \<Rightarrow> 'b http_result"

definition api_url :: "string \<Rightarrow> string" where
  "api_url domain = domain @ ''/learn/api/public/v1''"

text \<open>\<open>_get\<close>: one request against the v1 base path; returns the result and the new history.\<close>

definition get ::
  "string \<Rightarrow> 'b session \<Rightarrow> string \<Rightarrow> params option \<Rightarrow> request list
     \<Rightarrow> (error + 'b) \<times> request list" where
  "get domain sess endpoint params h =
     (let url = api_url domain @ endpoint
      in ((case sess h url params of
             Response status_code body text \<Rightarrow>
               if status_code = 200 then Inr body
               else Inl (BBAPIError (''API request failed: '' @ endpoint) (Some status_code) (Some text))
           | RequestException e \<Rightarrow> Inl (BBAPIError (''Request error: '' @ e) None None)),
          h @ [(url, params)]))"

text \<open>\<open>_get_v2\<close>: the same against the v2 base path.\<close>

definition get_v2 ::
  "string \<Rightarrow> 'b session \<Rightarrow> string \<Rightarrow> params option \<Rightarrow> request list
     \<Rightarrow> (error + 'b) \<times> request list" where
  "get_v2 domain sess endpoint params h =
     (let url = domain @ ''/learn/api/public/v2'' @ endpoint
      in ((case sess h url params of
             Response status_code body text \<Rightarrow>
               if status_code = 200 then Inr body
               else Inl (BBAPIError (''API v2 request failed: '' @ endpoint) (Some status_code) (Some text))
           | RequestException e \<Rightarrow> Inl (BBAPIError (''Request error: '' @ e) None None)),
          h @ [(url, params)]))"

section \<open>Pagination walkers (client.py)\<close>

text \<open>
  A page response: \<open>results\<close> and \<open>paging\<close> may be missing (\<open>data.get("results", [])\<close>,
  \<open>data.get("paging", {})\<close>), and so may \<open>nextPage\<close> inside \<open>paging\<close>.
\<close>

record paging =
  nextPage :: "string option"

record 'a page =
  results :: "'a list option"
  paging :: "paging option"

definition truthy :: "string option \<Rightarrow> bool" where
  "truthy s = (case s of None \<Rightarrow> False | Some v \<Rightarrow> v \<noteq> [])"

definition page_results :: "'a page \<Rightarrow> 'a list" where
  "page_results data = (case results data of None \<Rightarrow> [] | Some rs \<Rightarrow> rs)"

definition page_next :: "'a page \<Rightarrow> string option" where
  "page_next data = (case paging data of None \<Rightarrow> None | Some pg \<Rightarrow> nextPage pg)"

text \<open>\<open>next_page.split("offset=")[-1].split("&")[0]\<close>\<close>

definition extract_offset :: "string \<Rightarrow> string" where
  "extract_offset next_page = hd (py_split ''&'' (last (py_split ''offset='' next_page)))"

text \<open>
  The \<open>while True\<close> loop of \<open>_get_paginated\<close>. Nothing bounds the number of pages, so the
  loop is a partial function: \<open>None\<close> is a run that never returns.
\<close>

partial_function (option) get_paginated_loop ::
  "string \<Rightarrow> 'a page session \<Rightarrow> string \<Rightarrow> params \<Rightarrow> 'a list \<Rightarrow> request list
     \<Rightarrow> ((error + 'a list) \<times> request list) option" where
  "get_paginated_loop domain sess endpoint params all_results h =
     (case get domain sess endpoint (Some params) h of
        (Inl e, h') \<Rightarrow> Some (Inl e, h')
      | (Inr data, h') \<Rightarrow>
          (let all_results' = all_results @ page_results data;
               next_page = page_next data
           in if \<not> truthy next_page then Some (Inr all_results', h')
              else if py_in ''offset='' (the next_page)
              then get_paginated_loop domain sess endpoint
                     (dict_set ''offset'' (extract_offset (the next_page)) params) all_results' h'
              else Some (Inr all_results', h')))"

declare get_paginated_loop.simps [code]

definition get_paginated ::
  "string \<Rightarrow> 'a page session \<Rightarrow> string \<Rightarrow> params option \<Rightarrow> request list
     \<Rightarrow> ((error + 'a list) \<times> request list) option" where
  "get_paginated domain sess endpoint params h =
     get_paginated_loop domain sess endpoint (case params of None \<Rightarrow> [] | Some p \<Rightarrow> p) [] h"

text \<open>The loop of \<open>_get_paginated_v2\<close>, written out a second time in the source.\<close>

partial_function (option) get_paginated_v2_loop ::
  "string \<Rightarrow> 'a page session \<Rightarrow> string \<Rightarrow> params \<Rightarrow> 'a list \<Rightarrow> request list
     \<Rightarrow> ((error + 'a list) \<times> request list) option" where
  "get_paginated_v2_loop domain sess endpoint params all_results h =
     (case get_v2 domain sess endpoint (Some params) h of
        (Inl e, h') \<Rightarrow> Some (Inl e, h')
      | (Inr data, h') \<Rightarrow>
          (let all_results' = all_results @ page_results data;
               next_page = page_next data
           in if \<not> truthy next_page then Some (Inr all_results', h')
              else if py_in ''offset='' (the next_page)
              then get_paginated_v2_loop domain sess endpoint
                     (dict_set ''offset'' (extract_offset (the next_page)) params) all_results' h'
              else Some (Inr all_results', h')))"

declare get_paginated_v2_loop.simps [code]

definition get_paginated_v2 ::
  "string \<Rightarrow> 'a page session \<Rightarrow> string \<Rightarrow> params option \<Rightarrow> request list
     \<Rightarrow> ((error + 'a list) \<times> request list) option" where
  "get_paginated_v2 domain sess endpoint params h =
     get_paginated_v2_loop domain sess endpoint (case params of None \<Rightarrow> [] | Some p \<Rightarrow> p) [] h"

section \<open>The pagination protocol as the specification words it\<close>

text \<open>
  A page continues the walk when its \<open>nextPage\<close> is present and holds an \<open>offset=\<close>
  token; the walk stops at a page whose \<open>nextPage\<close> is absent or holds no such token.
\<close>

definition has_next :: "'a page \<Rightarrow> bool" where
  "has_next p = (case page_next p of None \<Rightarrow> False | Some np \<Rightarrow> py_in ''offset='' np)"

text \<open>The parameters of the request that follows page \<open>p\<close>, asked with parameters \<open>q\<close>.\<close>

definition next_params :: "params \<Rightarrow> 'a page \<Rightarrow> params" where
  "next_params q p = dict_set ''offset'' (extract_offset (the (page_next p))) q"

text \<open>The parameters of the successive requests when the pages \<open>ps\<close> come back in order.\<close>

fun issued :: "params \<Rightarrow> 'a page list \<Rightarrow> params list" where
  "issued q [] = []"
| "issued q (p # ps) = q # issued (next_params q p) ps"

text \<open>
  \<open>serves sess h ps\<close>: from the history \<open>h\<close> on, the session answers the next requests
  with status 200 and the pages \<open>ps\<close>, in this order.
\<close>

definition serves :: "'a page session \<Rightarrow> request list \<Rightarrow> 'a page list \<Rightarrow> bool" where
  "serves sess h ps =
     (\<forall>i < length ps. \<forall>hh u q. length hh = length h + i \<longrightarrow>
        (\<exists>t. sess hh u q = Response 200 (ps ! i) t))"

text \<open>
  Two sessions give the same responses when the answer depends on the query parameters
  asked so far and now, not on the base path in the URL.
\<close>

definition same_responses :: "'b session \<Rightarrow> 'b session \<Rightarrow> bool" where
  "same_responses s1 s2 =
     (\<forall>h1 h2 u1 u2 q. map snd h1 = map snd h2 \<longrightarrow> s1 h1 u1 q = s2 h2 u2 q)"

text \<open>
  What a caller observes of a run: the result list (none when the walker raised) and the
  parameters of the requests issued.
\<close>

definition observed ::
  "(error + 'a list) \<times> request list \<Rightarrow> 'a list option \<times> params option list" where
  "observed r = ((case fst r of Inl e \<Rightarrow> None | Inr xs \<Rightarrow> Some xs), map snd (snd r))"

text \<open>A separator no proper prefix of which is also its suffix cannot overlap itself.\<close>

definition unbordered :: "string \<Rightarrow> bool" where
  "unbordered sep =
     list_all (\<lambda>k. take k sep \<noteq> drop (length sep - k) sep) [1..<length sep]"

text \<open>A session that replays a fixed list of responses, then loses the connection.\<close>

definition scripted :: "'b http_result list \<Rightarrow> 'b session" where
  "scripted rs h url params =
     (if length h < length rs then rs ! length h else RequestException ''connection lost'')"

definition example_pages :: "nat page list" where
  "example_pages =
     [\<lparr>results = Some [1, 2],
       paging = Some \<lparr>nextPage = Some ''/learn/api/public/v1/x?offset=2&limit=2''\<rparr>\<rparr>,
      \<lparr>results = Some [3], paging = Some \<lparr>nextPage = None\<rparr>\<rparr>]"

definition example_session :: "nat page session" where
  "example_session = scripted (map (\<lambda>p. Response 200 p []) example_pages)"

section \<open>More Python string operations\<close>

text \<open>\<open>sep.join(parts)\<close> and \<open>s.replace(old, new)\<close> (every occurrence, left to right).\<close>

fun py_join :: "string \<Rightarrow> string list \<Rightarrow> string" where
  "py_join sep [] = []"
| "py_join sep [p] = p"
| "py_join sep (p # q # ps) = p @ sep @ py_join sep (q # ps)"

definition py_replace :: "string \<Rightarrow> string \<Rightarrow> string \<Rightarrow> string" where
  "py_replace old new s = py_join new (py_split old s)"

text \<open>
  \<open>lower()\<close> and \<open>upper()\<close> on the ASCII letters; other characters are left as they are.
\<close>

definition ascii_lowercase :: string where
  "ascii_lowercase = ''abcdefghijklmnopqrstuvwxyz''"

definition ascii_uppercase :: string where
  "ascii_uppercase = ''ABCDEFGHIJKLMNOPQRSTUVWXYZ''"

definition py_lower :: "string \<Rightarrow> string" where
  "py_lower s =
     map (\<lambda>c. case map_of (zip ascii_uppercase ascii_lowercase) c of None \<Rightarrow> c | Some l \<Rightarrow> l) s"

definition py_upper :: "string \<Rightarrow> string" where
  "py_upper s =
     map (\<lambda>c. case map_of (zip ascii_lowercase ascii_uppercase) c of None \<Rightarrow> c | Some u \<Rightarrow> u) s"

text \<open>An f-string prints a missing value as \<open>None\<close>.\<close>

definition fmt :: "string option \<Rightarrow> string" where
  "fmt v = (case v of None \<Rightarrow> ''None'' | Some s \<Rightarrow> s)"

section \<open>Numbers\<close>

text \<open>
  A Python \<open>float\<close> is a binary64 number and is modelled by the rational it denotes.
  \<open>float_of x\<close> is the binary64 number nearest to the rational \<open>x\<close>, a tie going to the
  even significand: 53 significant bits, and below \<open>2^-1022\<close> the fixed spacing \<open>2^-1074\<close>
  of the subnormal numbers. It is the rounding of the true division of two integers, of
  the product of two floats and of a decimal literal. Overflow is not modelled: the
  numbers here are quotients of two counts, the first at most the second, and such a
  quotient times 100.
\<close>

text \<open>The number of binary digits of a positive integer.\<close>

function bits :: "int \<Rightarrow> int" where
  "bits n = (if n \<le> 0 then 0 else 1 + bits (n div 2))"
  by pat_completeness auto
termination
  by (relation "measure nat") auto

declare bits.simps [simp del]

definition pow2 :: "int \<Rightarrow> rat" where
  "pow2 e = (if e \<ge> 0 then 2 ^ nat e else 1 / 2 ^ nat (- e))"

text \<open>The exponent of a positive rational: \<open>pow2 e \<le> x < pow2 (e + 1)\<close>.\<close>

definition floor_log2 :: "rat \<Rightarrow> int" where
  "floor_log2 x =
     (let (p, q) = quotient_of x;
          e = bits p - bits q
      in if pow2 e \<le> x then e else e - 1)"

definition round_half_even :: "rat \<Rightarrow> int" where
  "round_half_even x =
     (let f = \<lfloor>x\<rfloor>; d = x - of_int f
      in if d < 1 / 2 then f
         else if d > 1 / 2 then f + 1
         else if even f then f else f + 1)"

definition float_of :: "rat \<Rightarrow> rat" where
  "float_of x =
     (if x = 0 then 0
      else (let e = max (floor_log2 \<bar>x\<bar>) (- 1022);
                ulp = pow2 (e - 52)
            in of_int (round_half_even (x / ulp)) * ulp))"

text \<open>
  \<open>round(x, 2)\<close> on a float: the exact value of \<open>x\<close> is rounded to the nearest hundredth, a
  tie going to the even one, and the result is the float nearest to that hundredth.
\<close>

definition py_round2 :: "rat \<Rightarrow> rat" where
  "py_round2 x = float_of (of_int (round_half_even (x * 100)) / 100)"

section \<open>Records of the API and of the cache (client.py)\<close>

text \<open>
  A field that the source reads with \<open>.get\<close> may be missing and is an option. Gradebook
  column, grade and content item as the v2 and v1 endpoints return them:
\<close>

record grading =
  grading_type :: "string option"
  grading_due :: "string option"

record column_score =
  possible :: "rat option"

record column =
  column_id :: "string option"
  column_grading :: "grading option"
  column_contentId :: "string option"
  column_name :: "string option"
  column_score :: "column_score option"

record grade =
  grade_status :: "string option"
  grade_score :: "rat option"

record content_handler =
  isLateAttemptCreationDisallowed :: "bool option"

record content =
  contentHandler :: "content_handler option"

record meeting =
  meeting_id :: "string option"

record attendance =
  att_status :: "string option"
  att_meeting :: "meeting option"

text \<open>The assignment dictionary built by \<open>get_course_assignments\<close>.\<close>

record assignment =
  a_id :: "string option"
  a_content_id :: "string option"
  a_name :: string
  a_course_id :: string
  a_course_name :: "string option"
  a_due :: "string option"
  a_score_possible :: "rat option"
  score :: "rat option"
  status :: string
  submitted :: bool
  graded :: bool
  is_past_due :: bool
  accepts_late :: bool
  a_grading_type :: string

text \<open>A course of the cache file, and the cached data of the client.\<close>

record cached_course =
  cc_name :: "string option"
  cc_course_id :: "string option"
  cc_internal_id :: "string option"
  cc_url :: "string option"
  cc_professors :: "string list"

record cached_data =
  cd_courses :: "cached_course list option"

text \<open>
  The client object. Its one HTTP session is seen through one typed view for each shape
  of body an endpoint returns; all views share the request history. \<open>fromisoformat\<close> is
  the library parser of due dates (\<open>None\<close> for a \<open>ValueError\<close>) and \<open>clock\<close> the current
  time, both as instants on one time line.
\<close>

record client =
  domain :: string
  user_id :: "string option"
  cached :: "cached_data option"
  id_path :: "string option"
  session_columns :: "column page session"
  session_grade :: "grade session"
  session_content :: "content session"
  session_meetings :: "meeting page session"
  session_attendance :: "attendance session"
  fromisoformat :: "string \<Rightarrow> int option"
  clock :: "request list \<Rightarrow> int"

definition courses_of :: "client \<Rightarrow> cached_course list" where
  "courses_of c =
     (case cached c of None \<Rightarrow> []
      | Some cd \<Rightarrow> (case cd_courses cd of None \<Rightarrow> [] | Some cs \<Rightarrow> cs))"

section \<open>Assignments (client.py)\<close>

text \<open>
  The course name of \<open>get_course_assignments\<close>: the first cached course whose
  \<open>course_id\<close> is non-empty and occurs in the course id asked for.
\<close>

fun find_course_name :: "cached_course list \<Rightarrow> string \<Rightarrow> string option" where
  "find_course_name [] course_id = None"
| "find_course_name (course # rest) course_id =
     (if truthy (cc_course_id course) \<and> py_in (the (cc_course_id course)) course_id
      then cc_name course
      else find_course_name rest course_id)"

text \<open>
  The body of the loop over the columns: \<open>None\<close> for a skipped (calculated) column.
  \<open>_get\<close> raises nothing but \<open>BBAPIError\<close>, so the two handlers catch every error of it.
\<close>

definition column_assignment ::
  "client \<Rightarrow> string \<Rightarrow> string option \<Rightarrow> column \<Rightarrow> request list
     \<Rightarrow> assignment option \<times> request list" where
  "column_assignment c course_id course_name col h =
     (let col_id = column_id col;
          grading = (case column_grading col of
                       None \<Rightarrow> \<lparr>grading_type = None, grading_due = None\<rparr> | Some g \<Rightarrow> g);
          gtype = (case grading_type grading of None \<Rightarrow> ''Manual'' | Some t \<Rightarrow> t)
      in if gtype = ''Calculated'' then (None, h)
         else
           (let due = grading_due grading;
                past_due =
                  (if truthy due
                   then (case fromisoformat c (py_replace ''Z'' ''+00:00'' (the due)) of
                           None \<Rightarrow> False
                         | Some due_dt \<Rightarrow> clock c h > due_dt)
                   else False);
                grade_url = ''/courses/'' @ course_id @ ''/gradebook/columns/'' @ fmt col_id
                              @ ''/users/'' @ fmt (user_id c);
                (grade_res, h1) = get (domain c) (session_grade c) grade_url None h;
                (sc, st, gr, sub) =
                  (case grade_res of
                     Inl e \<Rightarrow> (None, ''NotSubmitted'', False, False)
                   | Inr g \<Rightarrow>
                       if grade_status g = Some ''Graded'' then (grade_score g, ''Graded'', True, True)
                       else if grade_status g = Some ''NeedsGrading''
                       then (grade_score g, ''Submitted'', False, True)
                       else if truthy (grade_status g)
                       then (grade_score g, the (grade_status g), False, True)
                       else if grade_score g \<noteq> None then (grade_score g, ''Graded'', True, True)
                       else (grade_score g, ''NotSubmitted'', False, False));
                content_id = column_contentId col;
                (late_ok, h2) =
                  (if truthy content_id
                   then (case get (domain c) (session_content c)
                                (''/courses/'' @ course_id @ ''/contents/'' @ the content_id) None h1 of
                           (Inl e, h') \<Rightarrow> (True, h')
                         | (Inr ct, h') \<Rightarrow>
                             (let handler = (case contentHandler ct of
                                               None \<Rightarrow> \<lparr>isLateAttemptCreationDisallowed = None\<rparr>
                                             | Some hdl \<Rightarrow> hdl)
                              in (\<not> (case isLateAttemptCreationDisallowed handler of
                                        None \<Rightarrow> False | Some b \<Rightarrow> b), h')))
                   else (True, h1))
            in (Some \<lparr> a_id = col_id, a_content_id = content_id,
                       a_name = (case column_name col of None \<Rightarrow> ''Unknown'' | Some n \<Rightarrow> n),
                       a_course_id = course_id, a_course_name = course_name, a_due = due,
                       a_score_possible = (case column_score col of None \<Rightarrow> None | Some s \<Rightarrow> possible s),
                       score = sc, status = st, submitted = sub, graded = gr,
                       is_past_due = past_due, accepts_late = late_ok,
                       a_grading_type = gtype \<rparr>, h2)))"

fun columns_loop ::
  "client \<Rightarrow> string \<Rightarrow> string option \<Rightarrow> column list \<Rightarrow> assignment list \<Rightarrow> request list
     \<Rightarrow> assignment list \<times> request list" where
  "columns_loop c course_id course_name [] assignments h = (assignments, h)"
| "columns_loop c course_id course_name (col # cols) assignments h =
     (case column_assignment c course_id course_name col h of
        (None, h') \<Rightarrow> columns_loop c course_id course_name cols assignments h'
      | (Some a, h') \<Rightarrow> columns_loop c course_id course_name cols (assignments @ [a]) h')"

text \<open>
  \<open>get_course_assignments\<close>: a \<open>BBAPIError\<close> of the column listing is caught and the
  empty list returned.
\<close>

definition get_course_assignments ::
  "client \<Rightarrow> string \<Rightarrow> request list \<Rightarrow> ((error + assignment list) \<times> request list) option" where
  "get_course_assignments c course_id h =
     (case get_paginated_v2 (domain c) (session_columns c)
             (''/courses/'' @ course_id @ ''/gradebook/columns'') None h of
        None \<Rightarrow> None
      | Some (Inl e, h') \<Rightarrow> Some (Inr [], h')
      | Some (Inr columns, h') \<Rightarrow>
          (let course_name = (if cached c \<noteq> None then find_course_name (courses_of c) course_id
                              else None);
               (assignments, h'') = columns_loop c course_id course_name columns [] h'
           in Some (Inr assignments, h'')))"

text \<open>\<open>get_assignments\<close>: the loop over the cached courses.\<close>

fun get_assignments_loop ::
  "client \<Rightarrow> cached_course list \<Rightarrow> assignment list \<Rightarrow> request list
     \<Rightarrow> ((error + assignment list) \<times> request list) option" where
  "get_assignments_loop c [] all_assignments h = Some (Inr all_assignments, h)"
| "get_assignments_loop c (cached_course # rest) all_assignments h =
     (if \<not> truthy (cc_internal_id cached_course)
      then get_assignments_loop c rest all_assignments h
      else (case get_course_assignments c (the (cc_internal_id cached_course)) h of
              None \<Rightarrow> None
            | Some (Inl e, h') \<Rightarrow>
                (case e of
                   BBAPIError m sc tx \<Rightarrow> get_assignments_loop c rest all_assignments h'
                 | _ \<Rightarrow> Some (Inl e, h'))
            | Some (Inr course_assignments, h') \<Rightarrow>
                get_assignments_loop c rest
                  (all_assignments @
                     map (\<lambda>a. if \<not> truthy (a_course_name a)
                               then a\<lparr>a_course_name := cc_name cached_course\<rparr> else a)
                       course_assignments) h'))"

definition get_assignments ::
  "client \<Rightarrow> request list \<Rightarrow> ((error + assignment list) \<times> request list) option" where
  "get_assignments c h =
     (if cached c = None then Some (Inr [], h)
      else get_assignments_loop c (courses_of c) [] h)"

section \<open>Assignment statistics (client.py)\<close>

text \<open>
  The counters of \<open>get_course_assignment_stats\<close> and its loop over the assignments,
  written with the nested conditionals of the source. \<open>score == 0\<close> is false for a
  missing score.
\<close>

record counts =
  on_time :: nat
  late :: nat
  missed :: nat
  available :: nat

definition no_counts :: counts where
  "no_counts = \<lparr> on_time = 0, late = 0, missed = 0, available = 0 \<rparr>"

fun count_assignments :: "assignment list \<Rightarrow> counts \<Rightarrow> counts" where
  "count_assignments [] n = n"
| "count_assignments (a # rest) n =
     count_assignments rest
       (if graded a \<and> score a = Some 0 then n\<lparr>missed := missed n + 1\<rparr>
        else if submitted a then
          (if \<not> is_past_due a then n\<lparr>on_time := on_time n + 1\<rparr>
           else n\<lparr>late := late n + 1\<rparr>)
        else
          (if is_past_due a \<and> \<not> accepts_late a then n\<lparr>missed := missed n + 1\<rparr>
           else n\<lparr>available := available n + 1\<rparr>))"

record course_assignment_stats =
  cas_course_id :: string
  cas_course_name :: "string option"
  cas_total :: nat
  cas_counts :: counts
  cas_on_time_rate :: rat

text \<open>The first assignment with a non-empty course name gives the course name.\<close>

fun first_course_name :: "assignment list \<Rightarrow> string option" where
  "first_course_name [] = None"
| "first_course_name (a # rest) =
     (if truthy (a_course_name a) then a_course_name a else first_course_name rest)"

definition on_time_rate_of :: "nat \<Rightarrow> nat \<Rightarrow> rat" where
  "on_time_rate_of on_time_n total_n =
     (if total_n > 0 then float_of (of_nat on_time_n / of_nat total_n) else 0)"

text \<open>What \<open>get_course_assignment_stats\<close> computes from the assignments it fetched.\<close>

definition course_stats_of :: "string \<Rightarrow> assignment list \<Rightarrow> course_assignment_stats" where
  "course_stats_of course_id assignments =
     (let total_n = length assignments;
          n = count_assignments assignments no_counts
      in \<lparr> cas_course_id = course_id,
            cas_course_name = first_course_name assignments,
            cas_total = total_n,
            cas_counts = n,
            cas_on_time_rate = py_round2 (on_time_rate_of (on_time n) total_n) \<rparr>)"

definition get_course_assignment_stats ::
  "client \<Rightarrow> string \<Rightarrow> request list
     \<Rightarrow> ((error + course_assignment_stats) \<times> request list) option" where
  "get_course_assignment_stats c course_id h =
     (case get_course_assignments c course_id h of
        None \<Rightarrow> None
      | Some (Inl e, h') \<Rightarrow> Some (Inl e, h')
      | Some (Inr assignments, h') \<Rightarrow> Some (Inr (course_stats_of course_id assignments), h'))"

text \<open>
  \<open>get_assignment_stats\<close>: the loop over the cached courses, with the running totals
  (total, on time, late, missed, available), and the result. The \<open>overall\<close> dictionary
  has the one key \<open>on_time_rate\<close> when there is no cached data.
\<close>

record assignment_stats =
  as_courses :: "course_assignment_stats list"
  as_overall :: "(string \<times> rat) list"

fun assignment_stats_loop ::
  "client \<Rightarrow> cached_course list \<Rightarrow> course_assignment_stats list \<Rightarrow> nat \<times> counts
     \<Rightarrow> request list
     \<Rightarrow> ((error + course_assignment_stats list \<times> nat \<times> counts) \<times> request list) option" where
  "assignment_stats_loop c [] course_stats totals h = Some (Inr (course_stats, totals), h)"
| "assignment_stats_loop c (course # rest) course_stats totals h =
     (if \<not> truthy (cc_internal_id course)
      then assignment_stats_loop c rest course_stats totals h
      else (case get_course_assignment_stats c (the (cc_internal_id course)) h of
              None \<Rightarrow> None
            | Some (Inl e, h') \<Rightarrow>
                (case e of
                   BBAPIError m sc tx \<Rightarrow> assignment_stats_loop c rest course_stats totals h'
                 | _ \<Rightarrow> Some (Inl e, h'))
            | Some (Inr stats, h') \<Rightarrow>
                (let stats' = stats\<lparr>cas_course_name := cc_name course\<rparr>;
                     (total_all, n) = totals;
                     m = cas_counts stats'
                 in assignment_stats_loop c rest (course_stats @ [stats'])
                      (total_all + cas_total stats',
                       \<lparr> on_time = on_time n + on_time m, late = late n + late m,
                         missed = missed n + missed m,
                         available = available n + available m \<rparr>) h')))"

definition overall_of :: "nat \<times> counts \<Rightarrow> (string \<times> rat) list" where
  "overall_of totals =
     (let (total_all, n) = totals
      in [(''total'', of_nat total_all), (''on_time'', of_nat (on_time n)),
          (''late'', of_nat (late n)), (''missed'', of_nat (missed n)),
          (''available'', of_nat (available n)),
          (''on_time_rate'', py_round2 (on_time_rate_of (on_time n) total_all))])"

definition get_assignment_stats ::
  "client \<Rightarrow> request list \<Rightarrow> ((error + assignment_stats) \<times> request list) option" where
  "get_assignment_stats c h =
     (if cached c = None
      then Some (Inr \<lparr> as_courses = [], as_overall = [(''on_time_rate'', 0)] \<rparr>, h)
      else (case assignment_stats_loop c (courses_of c) [] (0, no_counts) h of
              None \<Rightarrow> None
            | Some (Inl e, h') \<Rightarrow> Some (Inl e, h')
            | Some (Inr (course_stats, totals), h') \<Rightarrow>
                Some (Inr \<lparr> as_courses = course_stats, as_overall = overall_of totals \<rparr>, h')))"

section \<open>Attendance (client.py)\<close>

text \<open>
  \<open>_get_course_attendance\<close>: a meeting whose attendance record cannot be fetched is kept
  with the status \<open>unknown\<close>; a failing meeting list gives the empty list.
\<close>

fun meetings_loop ::
  "client \<Rightarrow> string \<Rightarrow> meeting list \<Rightarrow> attendance list \<Rightarrow> request list
     \<Rightarrow> attendance list \<times> request list" where
  "meetings_loop c course_id [] attendance_records h = (attendance_records, h)"
| "meetings_loop c course_id (m # rest) attendance_records h =
     (case get (domain c) (session_attendance c)
             (''/courses/'' @ course_id @ ''/meetings/'' @ fmt (meeting_id m)
                @ ''/users/'' @ fmt (user_id c)) None h of
        (Inl e, h') \<Rightarrow>
          meetings_loop c course_id rest
            (attendance_records @ [\<lparr> att_status = Some ''unknown'', att_meeting = Some m \<rparr>]) h'
      | (Inr a, h') \<Rightarrow>
          meetings_loop c course_id rest (attendance_records @ [a\<lparr>att_meeting := Some m\<rparr>]) h')"

definition get_course_attendance ::
  "client \<Rightarrow> string \<Rightarrow> request list \<Rightarrow> (attendance list \<times> request list) option" where
  "get_course_attendance c course_id h =
     (case get_paginated (domain c) (session_meetings c)
             (''/courses/'' @ course_id @ ''/meetings'') None h of
        None \<Rightarrow> None
      | Some (Inl e, h') \<Rightarrow> Some ([], h')
      | Some (Inr meetings, h') \<Rightarrow> Some (meetings_loop c course_id meetings [] h'))"

text \<open>
  The loop of \<open>get_course_attendance_percentage\<close> over the records: the counters
  (present, absent). A record with no status counts as the empty status.
\<close>

fun count_attendance :: "attendance list \<Rightarrow> nat \<times> nat \<Rightarrow> nat \<times> nat" where
  "count_attendance [] n = n"
| "count_attendance (r # rest) n =
     (let st = py_lower (case att_status r of None \<Rightarrow> [] | Some s \<Rightarrow> s);
          (present, absent) = n
      in count_attendance rest
           (if st \<in> set [''present'', ''late'', ''excused''] then (present + 1, absent)
            else if st \<in> set [''absent''] then (present, absent + 1)
            else (present, absent)))"

definition percentage_of :: "nat \<Rightarrow> nat \<Rightarrow> rat" where
  "percentage_of present total_n =
     (if total_n > 0 then float_of (float_of (of_nat present / of_nat total_n) * 100) else 0)"

record attendance_stats =
  ats_course_id :: string
  ats_course_name :: "string option"
  ats_present :: nat
  ats_absent :: nat
  ats_total :: nat
  ats_percentage :: rat

fun find_internal_name :: "cached_course list \<Rightarrow> string \<Rightarrow> string option" where
  "find_internal_name [] course_id = None"
| "find_internal_name (course # rest) course_id =
     (if cc_internal_id course = Some course_id then cc_name course
      else find_internal_name rest course_id)"

definition attendance_stats_of ::
  "client \<Rightarrow> string \<Rightarrow> attendance list \<Rightarrow> attendance_stats" where
  "attendance_stats_of c course_id attendance =
     (let total_n = length attendance;
          (present, absent) = count_attendance attendance (0, 0)
      in \<lparr> ats_course_id = course_id,
            ats_course_name = (if cached c \<noteq> None then find_internal_name (courses_of c) course_id
                               else None),
            ats_present = present, ats_absent = absent, ats_total = total_n,
            ats_percentage = py_round2 (percentage_of present total_n) \<rparr>)"

definition get_course_attendance_percentage ::
  "client \<Rightarrow> string \<Rightarrow> request list \<Rightarrow> (attendance_stats \<times> request list) option" where
  "get_course_attendance_percentage c course_id h =
     (case get_course_attendance c course_id h of
        None \<Rightarrow> None
      | Some (attendance, h') \<Rightarrow> Some (attendance_stats_of c course_id attendance, h'))"

text \<open>\<open>get_attendance_percentage\<close>: the loop over the cached courses and the result.\<close>

record attendance_overview =
  ao_courses :: "attendance_stats list"
  ao_overall :: "(string \<times> rat) list"

fun attendance_loop ::
  "client \<Rightarrow> cached_course list \<Rightarrow> attendance_stats list \<Rightarrow> nat \<times> nat \<times> nat
     \<Rightarrow> request list
     \<Rightarrow> ((attendance_stats list \<times> nat \<times> nat \<times> nat) \<times> request list) option" where
  "attendance_loop c [] course_stats totals h = Some ((course_stats, totals), h)"
| "attendance_loop c (course # rest) course_stats totals h =
     (if \<not> truthy (cc_internal_id course)
      then attendance_loop c rest course_stats totals h
      else (case get_course_attendance_percentage c (the (cc_internal_id course)) h of
              None \<Rightarrow> None
            | Some (stats, h') \<Rightarrow>
                (let stats' = stats\<lparr>ats_course_name := cc_name course\<rparr>;
                     (total_present, total_absent, total_meetings) = totals
                 in attendance_loop c rest (course_stats @ [stats'])
                      (total_present + ats_present stats', total_absent + ats_absent stats',
                       total_meetings + ats_total stats') h')))"

definition attendance_overall_of :: "nat \<times> nat \<times> nat \<Rightarrow> (string \<times> rat) list" where
  "attendance_overall_of totals =
     (let (total_present, total_absent, total_meetings) = totals
      in [(''present'', of_nat total_present), (''absent'', of_nat total_absent),
          (''total'', of_nat total_meetings),
          (''percentage'', py_round2 (percentage_of total_present total_meetings))])"

definition get_attendance_percentage ::
  "client \<Rightarrow> request list \<Rightarrow> (attendance_overview \<times> request list) option" where
  "get_attendance_percentage c h =
     (if cached c = None
      then Some (\<lparr> ao_courses = [], ao_overall = [(''percentage'', 0)] \<rparr>, h)
      else (case attendance_loop c (courses_of c) [] (0, 0, 0) h of
              None \<Rightarrow> None
            | Some ((course_stats, totals), h') \<Rightarrow>
                Some (\<lparr> ao_courses = course_stats, ao_overall = attendance_overall_of totals \<rparr>, h')))"

section \<open>The cache file and the two flags\<close>

text \<open>
  JSON values; an object keeps its keys in order. The file at the cache path is missing,
  is not JSON, or holds a JSON value.
\<close>

datatype json =
    JNull
  | JBool bool
  | JNum rat
  | JStr string
  | JArr "json list"
  | JObj "(string \<times> json) list"

datatype id_file = Missing | Malformed | Json json




section \<open>Writing the cache file (auth.py)\<close>

text \<open>
  The cookies of the session, the user data and the courses of the API, and the
  instructors with the course they teach, as \<open>save_id_file\<close> reads them.
\<close>

record cookie =
  cookie_name :: string
  cookie_value :: string
  cookie_domain :: string
  cookie_path :: string

record person_name =
  given :: "string option"
  family :: "string option"

record contact =
  email :: "string option"

record user_data =
  ud_name :: "person_name option"
  ud_userName :: "string option"
  ud_contact :: "contact option"

record api_course =
  ac_name :: "string option"
  ac_courseId :: "string option"
  ac_id :: "string option"
  ac_externalAccessUrl :: "string option"

record course_ref =
  cr_name :: "string option"

record instructor =
  in_course :: "course_ref option"
  in_name :: "person_name option"

text \<open>\<open>strip()\<close>: leading and trailing ASCII whitespace is removed.\<close>

definition whitespace :: "char list" where
  "whitespace = [CHR 0x09, CHR 0x0A, CHR 0x0B, CHR 0x0C, CHR 0x0D,
                 CHR 0x1C, CHR 0x1D, CHR 0x1E, CHR 0x1F, CHR 0x20]"

definition py_strip :: "string \<Rightarrow> string" where
  "py_strip s =
     rev (dropWhile (\<lambda>c. c \<in> set whitespace) (rev (dropWhile (\<lambda>c. c \<in> set whitespace) s)))"

definition or_empty :: "string option \<Rightarrow> string" where
  "or_empty v = (case v of None \<Rightarrow> [] | Some s \<Rightarrow> s)"

text \<open>\<open>f"{name_obj.get('given', '')} {name_obj.get('family', '')}".strip()\<close>\<close>

definition full_name_of :: "person_name option \<Rightarrow> string" where
  "full_name_of n =
     (case n of
        None \<Rightarrow> py_strip '' ''
      | Some name_obj \<Rightarrow> py_strip (or_empty (given name_obj) @ '' '' @ or_empty (family name_obj)))"

definition cookies_json :: "cookie list \<Rightarrow> json" where
  "cookies_json cs =
     JArr (map (\<lambda>c. JObj [(''name'', JStr (cookie_name c)), (''value'', JStr (cookie_value c)),
                            (''domain'', JStr (cookie_domain c)), (''path'', JStr (cookie_path c))]) cs)"

definition json_of_option :: "string option \<Rightarrow> json" where
  "json_of_option v = (case v of None \<Rightarrow> JNull | Some s \<Rightarrow> JStr s)"

text \<open>\<open>del d[k]\<close>\<close>

definition dict_del :: "'k \<Rightarrow> ('k \<times> 'v) list \<Rightarrow> ('k \<times> 'v) list" where
  "dict_del k d = filter (\<lambda>kv. fst kv \<noteq> k) d"

text \<open>One step of the loop that builds the instructor lookup by course name.\<close>

definition add_instructor ::
  "(string \<times> string list) list \<Rightarrow> instructor \<Rightarrow> (string \<times> string list) list" where
  "add_instructor instructor_lookup i =
     (let course_name_full = (case in_course i of None \<Rightarrow> [] | Some ci \<Rightarrow> or_empty (cr_name ci));
          prof_name = full_name_of (in_name i);
          lookup1 = (if dict_get instructor_lookup course_name_full = None
                     then dict_set course_name_full [] instructor_lookup
                     else instructor_lookup);
          profs = (case dict_get lookup1 course_name_full of None \<Rightarrow> [] | Some ps \<Rightarrow> ps)
      in if prof_name \<noteq> [] \<and> prof_name \<notin> set profs
         then dict_set course_name_full (profs @ [prof_name]) lookup1
         else lookup1)"

definition course_json :: "(string \<times> string list) list \<Rightarrow> api_course \<Rightarrow> json" where
  "course_json instructor_lookup course =
     (let course_name_full = or_empty (ac_name course);
          course_id_full = or_empty (ac_courseId course);
          parsed = parse_course_info course_name_full course_id_full;
          professors = (case dict_get instructor_lookup course_name_full of
                          None \<Rightarrow> [] | Some ps \<Rightarrow> ps)
      in JObj [(''name'', JStr (ci_name parsed)),
               (''course_id'', JStr (ci_course_id parsed)),
               (''internal_id'', json_of_option (ac_id course)),
               (''url'', JStr (or_empty (ac_externalAccessUrl course))),
               (''professors'', JArr (map JStr professors))])"

text \<open>
  \<open>save_id_file\<close>: the content written to the cache file. The parameter \<open>username\<close> is
  assigned anew from the user data before it is first read. \<open>now\<close> stands for
  \<open>datetime.now().isoformat()\<close>.
\<close>

definition save_id_file ::
  "cookie list \<Rightarrow> user_data \<Rightarrow> api_course list \<Rightarrow> instructor list
     \<Rightarrow> string option \<Rightarrow> string option \<Rightarrow> string \<Rightarrow> id_file" where
  "save_id_file session_cookies ud courses instructors username password now =
     (let cookies = cookies_json session_cookies;
          full_name = full_name_of (ud_name ud);
          username = or_empty (ud_userName ud);
          email_v = (case ud_contact ud of None \<Rightarrow> [] | Some ct \<Rightarrow> or_empty (email ct));
          class_name =
            (case courses of
               [] \<Rightarrow> None
             | first_course # _ \<Rightarrow>
                 (let course_name = or_empty (ac_name first_course)
                  in if py_in ''__'' course_name then Some (py_split ''__'' course_name ! 1)
                     else None));
          instructor_lookup = foldl add_instructor [] instructors;
          courses_data = map (course_json instructor_lookup) courses;
          credentials =
            (if username \<noteq> [] \<and> truthy password
             then JObj [(''username'', if username \<noteq> [] then JStr (py_upper username) else JNull),
                        (''password'', json_of_option password)]
             else JNull);
          id_data =
            [(''generated_at'', JStr now),
             (''cookies'', cookies),
             (''credentials'', credentials),
             (''user'', JObj [(''name'', JStr full_name),
                              (''username'', JStr (if username \<noteq> [] then username
                                                   else or_empty (ud_userName ud))),
                              (''email'', JStr email_v),
                              (''class'', json_of_option class_name)]),
             (''courses'', JArr courses_data),
             (''isNerd'', JNull),
             (''isAttending'', JNull),
             (''on_time_rate'', JNull),
             (''attendance_percentage'', JNull)]
      in Json (JObj (if credentials = JNull then dict_del ''credentials'' id_data else id_data)))"

text \<open>
  \<open>update_id_file_cookies\<close>: the result and the new content of the file. A missing file
  and a file that is not JSON raise \<open>BBAuthError\<close>; a JSON value that is not an object
  does not take the item assignment.
\<close>

definition update_id_file_cookies ::
  "string \<Rightarrow> cookie list \<Rightarrow> string \<Rightarrow> id_file \<Rightarrow> (error + unit) \<times> id_file" where
  "update_id_file_cookies path session_cookies now f =
     (case f of
        Missing \<Rightarrow> (Inl (BBAuthError (''ID file not found: '' @ path)), f)
      | Malformed \<Rightarrow> (Inl (BBAuthError (''Invalid ID file format: '' @ path)), f)
      | Json (JObj id_data) \<Rightarrow>
          (Inr (),
           Json (JObj (dict_set ''updated_at'' (JStr now)
                         (dict_set ''cookies'' (cookies_json session_cookies) id_data))))
      | Json _ \<Rightarrow> (Inl TypeError, f))"

section \<open>The classification as the specification words it\<close>

text \<open>
  The four buckets and the priority order of the specification, first match winning:
  graded with score 0 is missed; else submitted and not past due is on time; else
  submitted and past due is late; else not submitted, past due and late submission not
  accepted is missed; otherwise available.
\<close>

datatype bucket = OnTime | Late | Missed | Available

definition classify :: "assignment \<Rightarrow> bucket" where
  "classify a =
     (if graded a \<and> score a = Some 0 then Missed
      else if submitted a \<and> \<not> is_past_due a then OnTime
      else if submitted a \<and> is_past_due a then Late
      else if \<not> submitted a \<and> is_past_due a \<and> \<not> accepts_late a then Missed
      else Available)"

definition tally :: "bucket \<Rightarrow> assignment list \<Rightarrow> nat" where
  "tally b assignments = length (filter (\<lambda>a. classify a = b) assignments)"

text \<open>The attendance buckets of the specification, on the lower-cased status.\<close>

definition is_present :: "attendance \<Rightarrow> bool" where
  "is_present r = (py_lower (or_empty (att_status r)) \<in> {''present'', ''late'', ''excused''})"

definition is_absent :: "attendance \<Rightarrow> bool" where
  "is_absent r = (py_lower (or_empty (att_status r)) = ''absent'')"

section \<open>Example data\<close>

definition example_columns :: "column page" where
  "example_columns =
     \<lparr> results = Some
         [\<lparr> column_id = Some ''_c1'',
            column_grading = Some \<lparr>grading_type = Some ''Attempts'', grading_due = None\<rparr>,
            column_contentId = None, column_name = Some ''TP1'',
            column_score = Some \<lparr>possible = Some 20\<rparr> \<rparr>,
          \<lparr> column_id = Some ''_c2'', column_grading = None,
            column_contentId = None, column_name = None, column_score = None \<rparr>,
          \<lparr> column_id = Some ''_c3'',
            column_grading = Some \<lparr>grading_type = Some ''Calculated'', grading_due = None\<rparr>,
            column_contentId = None, column_name = Some ''Total'', column_score = None \<rparr>],
       paging = None \<rparr>"

definition example_meetings :: "meeting page" where
  "example_meetings =
     \<lparr> results = Some [\<lparr>meeting_id = Some ''1''\<rparr>, \<lparr>meeting_id = Some ''2''\<rparr>,
                        \<lparr>meeting_id = Some ''3''\<rparr>, \<lparr>meeting_id = Some ''4''\<rparr>],
       paging = None \<rparr>"

definition no_grade :: grade where
  "no_grade = \<lparr>grade_status = None, grade_score = None\<rparr>"

definition no_attendance :: attendance where
  "no_attendance = \<lparr>att_status = None, att_meeting = None\<rparr>"

definition inert_course :: cached_course where
  "inert_course =
     \<lparr>cc_name = Some ''Old course'', cc_course_id = Some ''ESE.OLD'', cc_internal_id = None,
      cc_url = None, cc_professors = []\<rparr>"

definition live_course :: cached_course where
  "live_course =
     \<lparr>cc_name = Some ''Gestion de projet'', cc_course_id = Some ''ESE.PR-01'',
      cc_internal_id = Some ''_1_1'', cc_url = None, cc_professors = []\<rparr>"

text \<open>
  A client with one inert and one live cached course. The course has two assignments
  (one graded 15 out of 20, one with no grade record) and a calculated column, and four
  meetings: present, absent, present and one without a record.
\<close>

definition example_client :: client where
  "example_client =
     \<lparr> domain = ''https://esprit.blackboard.com'',
       user_id = Some ''_7_1'',
       cached = Some \<lparr>cd_courses = Some [inert_course, live_course]\<rparr>,
       id_path = Some ''user.id'',
       session_columns = scripted [Response 200 example_columns []],
       session_grade = scripted
         [Response 404 no_grade [],
          Response 200 \<lparr>grade_status = Some ''Graded'', grade_score = Some 15\<rparr> [],
          Response 404 no_grade []],
       session_content = scripted [],
       session_meetings = scripted [Response 200 example_meetings []],
       session_attendance = scripted
         [Response 404 no_attendance [],
          Response 200 \<lparr>att_status = Some ''Present'', att_meeting = None\<rparr> [],
          Response 200 \<lparr>att_status = Some ''Absent'', att_meeting = None\<rparr> [],
          Response 200 \<lparr>att_status = Some ''Present'', att_meeting = None\<rparr> [],
          Response 404 no_attendance []],
       fromisoformat = (\<lambda>s. None),
       clock = (\<lambda>h. 0) \<rparr>"

text \<open>The same client when the gradebook column listing answers with status 500.\<close>

definition failing_client :: client where
  "failing_client =
     example_client\<lparr>session_columns :=
       scripted [Response 500 \<lparr>results = None, paging = None\<rparr> ''Internal Server Error'']\<rparr>"

definition example_assignment :: assignment where
  "example_assignment =
     \<lparr> a_id = Some ''_c1'', a_content_id = None, a_name = ''TP1'', a_course_id = ''_1_1'',
       a_course_name = None, a_due = None, a_score_possible = Some 20, score = Some 0,
       status = ''Graded'', submitted = True, graded = True, is_past_due = False,
       accepts_late = True, a_grading_type = ''Attempts'' \<rparr>"

definition example_file :: id_file where
  "example_file =
     Json (JObj [(''generated_at'', JStr ''2025-01-01T10:00:00''),
                 (''cookies'', JArr []),
                 (''credentials'', JObj [(''username'', JStr ''STUDENT''), (''password'', JStr ''pw'')]),
                 (''user'', JObj [(''name'', JStr ''A B'')]),
                 (''courses'', JArr []),
                 (''isNerd'', JBool True)])"

definition example_cookies :: "cookie list" where
  "example_cookies =
     [\<lparr>cookie_name = ''BbRouter'', cookie_value = ''v1'', cookie_domain = ''esprit.blackboard.com'',
       cookie_path = ''/''\<rparr>]"

definition example_user :: user_data where
  "example_user =
     \<lparr> ud_name = Some \<lparr>given = Some ''Ada'', family = Some ''Lovelace''\<rparr>,
       ud_userName = Some ''ada.lovelace'',
       ud_contact = Some \<lparr>email = Some ''ada@esprit.tn''\<rparr> \<rparr>"

definition nameless_user :: user_data where
  "nameless_user = example_user\<lparr>ud_userName := None\<rparr>"


section \<open>The frame of the cookie refresh\<close>

text \<open>The fields of a cache file other than the cookies and the update timestamp, in order.\<close>

definition other_fields :: "(string \<times> json) list \<Rightarrow> (string \<times> json) list" where
  "other_fields d = filter (\<lambda>kv. fst kv \<noteq> ''cookies'' \<and> fst kv \<noteq> ''updated_at'') d"

section \<open>Results up to the course name\<close>

text \<open>An assignment with its course name left out.\<close>

definition drop_course_name :: "assignment \<Rightarrow> assignment" where
  "drop_course_name a = a\<lparr>a_course_name := None\<rparr>"

text \<open>
  A record without internal identifier whose \<open>course_id\<close> occurs in the internal
  identifier of the live course, and the example client with this record in its cache.
\<close>

definition shadow_course :: cached_course where
  "shadow_course =
     \<lparr>cc_name = Some ''Old course'', cc_course_id = Some ''1'', cc_internal_id = None,
      cc_url = None, cc_professors = []\<rparr>"

definition shadowed_client :: client where
  "shadowed_client =
     example_client\<lparr>cached := Some \<lparr>cd_courses = Some [shadow_course, live_course]\<rparr>\<rparr>"

section \<open>Properties of the string operations\<close>

lemma py_split_nonempty: "py_split sep s \<noteq> []"
  by (induction sep s rule: py_split.induct) (auto split: list.splits)

lemma py_split_absent: "\<not> py_in sep s \<Longrightarrow> py_split sep s = [s]"
  by (induction sep s rule: py_split.induct) (auto split: list.splits)

lemma startswith_append_self: "startswith (sep @ rest) sep"
  by (simp add: startswith_def)

lemma py_split_at_sep:
  assumes "sep \<noteq> []"
  shows "py_split sep (sep @ rest) = [] # py_split sep rest"
proof -
  obtain c cs where sep: "sep = c # cs" using assms by (cases sep) auto
  have sw: "startswith (c # cs @ rest) (c # cs)"
    using startswith_append_self[of "c # cs" rest] by simp
  have "py_split (c # cs) (c # (cs @ rest)) = [] # py_split (c # cs) (drop (length (c # cs) - 1) (cs @ rest))"
    using sw by (simp del: startswith_def)
  then show ?thesis unfolding sep by simp
qed

lemma startswith_longer:
  assumes "startswith (a @ sep @ rest) sep" "a \<noteq> []"
  shows "startswith (a @ butlast sep) sep"
proof (cases sep rule: rev_cases)
  case Nil
  then show ?thesis by (simp add: startswith_def)
next
  case (snoc ys y)
  have "length sep \<le> length (a @ ys)" using assms(2) snoc by (cases a) auto
  then have "take (length sep) (a @ sep @ rest) = take (length sep) (a @ ys)"
    using snoc by simp
  then show ?thesis using assms(1) snoc by (simp add: startswith_def)
qed


lemma py_split_first:
  "sep \<noteq> [] \<Longrightarrow> \<not> py_in sep (a @ butlast sep) \<Longrightarrow>
     py_split sep (a @ sep @ rest) = a # py_split sep rest"
proof (induction a)
  case Nil
  then show ?case by (simp add: py_split_at_sep)
next
  case (Cons c a)
  have ns: "\<not> startswith ((c # a) @ butlast sep) sep" and ni: "\<not> py_in sep (a @ butlast sep)"
    using Cons.prems(2) by auto
  have nsw: "\<not> startswith (c # (a @ sep @ rest)) sep"
    using ns startswith_longer[of "c # a" sep rest] by auto
  have "py_split sep (c # (a @ sep @ rest)) = (c # a) # py_split sep rest"
    using nsw Cons.IH[OF Cons.prems(1) ni] by simp
  then show ?case by simp
qed

lemma py_in_append_sep: "py_in sep (a @ sep @ rest)"
proof (induction a)
  case Nil
  have "startswith (sep @ rest) sep" by (rule startswith_append_self)
  then show ?case by (cases "sep @ rest") auto
next
  case (Cons c a)
  then show ?case by simp
qed

section \<open>Course name parsing\<close>

lemma parse_no_sep:
  "\<not> py_in ''__'' n \<Longrightarrow> ci_name (parse_course_info n i) = n \<and> ci_class_name (parse_course_info n i) = None"
  by (simp add: parse_course_info_def Let_def)

lemma parse_name_first:
  assumes "\<not> py_in ''__'' (a @ ''_'')"
  shows "ci_name (parse_course_info (a @ ''__'' @ r) i) = a
    \<and> ci_class_name (parse_course_info (a @ ''__'' @ r) i) = Some (hd (py_split ''__'' r))
    \<and> ci_course_id (parse_course_info n (a @ ''__'' @ r)) = a"
proof -
  have sp: "py_split ''__'' (a @ ''__'' @ r) = a # py_split ''__'' r"
    using py_split_first[of "''__''" a r] assms by simp
  have inn: "py_in ''__'' (a @ ''__'' @ r)" by (rule py_in_append_sep)
  obtain p ps where ps: "py_split ''__'' r = p # ps"
    using py_split_nonempty[of "''__''" r] by (cases "py_split ''__'' r") auto
  show ?thesis
    using sp inn ps by (simp add: parse_course_info_def Let_def del: py_in.simps py_split.simps)
qed

text \<open>
  C4 (amended). \<open>parse_course_info\<close> cuts at the first \<open>"__"\<close>: the clean name (and the
  clean id) is the prefix before it. The class name is the segment between the first
  \<open>"__"\<close> and the second one, or the end of the string when there is no second one; it is
  \<open>None\<close> when the name has no \<open>"__"\<close>. An occurrence of \<open>"__"\<close> in \<open>a @ "_"\<close> would
  start before the end of \<open>a\<close>, so the hypothesis says the cut is at the first occurrence.
\<close>

theorem parse_course_info_first_segment:
  "(\<not> py_in ''__'' n \<longrightarrow>
      ci_name (parse_course_info n i) = n \<and> ci_class_name (parse_course_info n i) = None)
   \<and> (\<not> py_in ''__'' (a @ ''_'') \<and> \<not> py_in ''__'' b \<longrightarrow>
      ci_name (parse_course_info (a @ ''__'' @ b) i) = a
      \<and> ci_class_name (parse_course_info (a @ ''__'' @ b) i) = Some b)
   \<and> (\<not> py_in ''__'' (a @ ''_'') \<and> \<not> py_in ''__'' (b @ ''_'') \<longrightarrow>
      ci_name (parse_course_info (a @ ''__'' @ b @ ''__'' @ c) i) = a
      \<and> ci_class_name (parse_course_info (a @ ''__'' @ b @ ''__'' @ c) i) = Some b)
   \<and> (\<not> py_in ''__'' i \<longrightarrow> ci_course_id (parse_course_info n i) = i)
   \<and> (\<not> py_in ''__'' (a @ ''_'') \<longrightarrow> ci_course_id (parse_course_info n (a @ ''__'' @ c)) = a)"
proof -
  have one: "\<not> py_in ''__'' b \<Longrightarrow> hd (py_split ''__'' b) = b"
    by (simp add: py_split_absent)
  have two: "\<not> py_in ''__'' (b @ ''_'') \<Longrightarrow> hd (py_split ''__'' (b @ ''__'' @ c)) = b"
    using py_split_first[of "''__''" b c] by simp
  have idn: "\<not> py_in ''__'' i \<Longrightarrow> ci_course_id (parse_course_info n i) = i"
    by (simp add: parse_course_info_def Let_def split: prod.splits)
  show ?thesis
    using parse_no_sep[of n i] parse_name_first[of a b i n] parse_name_first[of a "b @ ''__'' @ c" i n]
      parse_name_first[of a c i n] one two idn
    by (simp del: py_in.simps py_split.simps)
qed

theorem parse_course_info_first_segment_witness:
  "ci_name (parse_course_info ''Gestion de projet__4SAE11'' ''ESE.PR-01__4SAE11'') = ''Gestion de projet''
   \<and> ci_class_name (parse_course_info ''Gestion de projet__4SAE11'' ''ESE.PR-01__4SAE11'') = Some ''4SAE11''
   \<and> ci_course_id (parse_course_info ''Gestion de projet__4SAE11'' ''ESE.PR-01__4SAE11'') = ''ESE.PR-01''
   \<and> ci_class_name (parse_course_info ''A__B__C'' ''X'') = Some ''B''
   \<and> ci_class_name (parse_course_info ''Anglais'' ''X'') = None"
  using parse_course_info_first_segment[of "''Anglais''" "''X''" "''Gestion de projet''" "''4SAE11''" "''''"]
    parse_course_info_first_segment[of "''Anglais''" "''X''" "''A''" "''B''" "''C''"]
    parse_course_info_first_segment[of "''Anglais''" "''ESE.PR-01__4SAE11''" "''ESE.PR-01''" "''4SAE11''" "''4SAE11''"]
  by (simp add: startswith_def parse_course_info_def)

text \<open>
  C4 as stated fails: with two separators the class name is not the whole remainder
  behind the first one.
\<close>

theorem parse_course_info_remainder_counterexample:
  "ci_class_name (parse_course_info ''A__B__C'' ''X'') \<noteq> Some ''B__C''"
  by (simp add: parse_course_info_def startswith_def)

section \<open>The pagination walker\<close>

lemma unbordered_offset: "unbordered ''offset=''"
  by code_simp

lemma py_split_two: "sep \<noteq> [] \<Longrightarrow> py_in sep s \<Longrightarrow> 2 \<le> length (py_split sep s)"
proof (induction sep s rule: py_split.induct)
  case (1 sep)
  then show ?case by simp
next
  case (2 sep c cs)
  show ?case
  proof (cases "startswith (c # cs) sep")
    case True
    then show ?thesis using py_split_nonempty[of sep "drop (length sep - 1) cs"]
      by (cases "py_split sep (drop (length sep - 1) cs)") auto
  next
    case False
    then have "py_in sep cs" using "2.prems" by simp
    then have "2 \<le> length (py_split sep cs)" using "2.IH"(2)[OF False "2.prems"(1)] by simp
    then show ?thesis using False by (cases "py_split sep cs") auto
  qed
qed

lemma startswith_short_border:
  assumes "startswith (pre @ sep @ b) sep" "pre \<noteq> []" "length pre < length sep"
  shows "\<not> unbordered sep"
proof -
  let ?k = "length sep - length pre"
  have t: "take (length sep) (pre @ sep @ b) = pre @ take ?k sep"
    using assms(3) by simp
  then have eq: "sep = pre @ take ?k sep" using assms(1) by (simp add: startswith_def)
  have "drop (length pre) sep = drop (length pre) (pre @ take ?k sep)" using eq by simp
  then have "drop (length pre) sep = take ?k sep" by simp
  moreover have "?k \<in> {1..<length sep}" using assms(2,3) by (cases pre) auto
  moreover have "length sep - ?k = length pre" using assms(3) by simp
  ultimately show ?thesis unfolding unbordered_def list_all_iff by (metis atLeastLessThan_upt)
qed

lemma py_split_last:
  "sep \<noteq> [] \<Longrightarrow> unbordered sep \<Longrightarrow> \<not> py_in sep b \<Longrightarrow> s = pre @ sep @ b \<Longrightarrow>
     last (py_split sep s) = b"
proof (induction sep s arbitrary: pre rule: py_split.induct)
  case (1 sep)
  then show ?case by simp
next
  case (2 sep c cs)
  show ?case
  proof (cases "startswith (c # cs) sep")
    case True
    have sp: "py_split sep (c # cs) = [] # py_split sep (drop (length sep - 1) cs)"
      using True by simp
    have "drop (length sep) (c # cs) = drop (length sep - 1) cs"
      using "2.prems"(1) by (cases sep) simp_all
    then have dr: "drop (length sep - 1) cs = drop (length sep) (pre @ sep @ b)"
      using "2.prems"(4) by simp
    have ne: "py_split sep (drop (length sep - 1) cs) \<noteq> []" by (rule py_split_nonempty)
    show ?thesis
    proof (cases "pre = []")
      case True
      then have "drop (length sep - 1) cs = b" using dr by simp
      then show ?thesis using sp ne py_split_absent[OF "2.prems"(3)] by simp
    next
      case False
      have ge: "length sep \<le> length pre"
        using startswith_short_border[of pre sep b] True "2.prems"(2,4) False by fastforce
      then have "drop (length sep - 1) cs = drop (length sep) pre @ sep @ b" using dr by simp
      then have "last (py_split sep (drop (length sep - 1) cs)) = b"
        using "2.IH"(1)[OF True "2.prems"(1,2,3)] by blast
      then show ?thesis using sp ne by simp
    qed
  next
    case False
    then have "pre \<noteq> []" using "2.prems"(4) startswith_append_self[of sep b] by (cases pre) auto
    then obtain pre' where pre: "pre = c # pre'" and cs: "cs = pre' @ sep @ b"
      using "2.prems"(4) by (cases pre) auto
    have l: "last (py_split sep cs) = b" using "2.IH"(2)[OF False "2.prems"(1,2,3) cs] .
    have "py_in sep cs" unfolding cs by (rule py_in_append_sep)
    then have "2 \<le> length (py_split sep cs)" using py_split_two "2.prems"(1) by blast
    then obtain p q ps where "py_split sep cs = p # q # ps"
      by (cases "py_split sep cs"; cases "tl (py_split sep cs)") auto
    then show ?thesis using False l by simp
  qed
qed

lemma py_split_hd_amp:
  assumes "CHR ''&'' \<notin> set v" "rest = [] \<or> hd rest = CHR ''&''"
  shows "hd (py_split ''&'' (v @ rest)) = v"
proof (cases rest)
  case Nil
  have "\<not> py_in ''&'' v" using assms(1) by (induction v) (auto simp: startswith_def)
  then show ?thesis using Nil by (simp add: py_split_absent)
next
  case (Cons r rs)
  then have r: "rest = ''&'' @ rs" using assms(2) by simp
  have "\<not> py_in ''&'' (v @ butlast ''&'')" using assms(1) by (induction v) (auto simp: startswith_def)
  then show ?thesis unfolding r using py_split_first[of "''&''" v rs] by simp
qed

lemma extract_offset_between:
  assumes "\<not> py_in ''offset='' (v @ rest)" "CHR ''&'' \<notin> set v" "rest = [] \<or> hd rest = CHR ''&''"
  shows "extract_offset (pre @ ''offset='' @ v @ rest) = v"
proof -
  have "last (py_split ''offset='' (pre @ ''offset='' @ v @ rest)) = v @ rest"
    using py_split_last[of "''offset=''" "v @ rest" _ pre] assms(1) unbordered_offset by simp
  then show ?thesis using py_split_hd_amp[OF assms(2,3)] by (simp add: extract_offset_def)
qed

lemma has_next_truthy: "has_next p \<longleftrightarrow> truthy (page_next p) \<and> py_in ''offset='' (the (page_next p))"
  by (auto simp: has_next_def truthy_def split: option.splits)

lemma serves_Cons:
  assumes "serves sess h (p # ps)"
  shows "\<exists>t. sess h u q = Response 200 p t" and "serves sess (h @ [r]) ps"
proof -
  show "\<exists>t. sess h u q = Response 200 p t"
    using assms unfolding serves_def by (metis add.right_neutral length_Cons nth_Cons_0 zero_less_Suc)
  show "serves sess (h @ [r]) ps"
    unfolding serves_def
  proof (intro allI impI)
    fix i and hh :: "request list" and u q
    assume i: "i < length ps" and l: "length hh = length (h @ [r]) + i"
    have "Suc i < length (p # ps)" using i by simp
    moreover have "length hh = length h + Suc i" using l by simp
    ultimately have "\<exists>t. sess hh u q = Response 200 ((p # ps) ! Suc i) t"
      using assms unfolding serves_def by blast
    then show "\<exists>t. sess hh u q = Response 200 (ps ! i) t" by simp
  qed
qed

lemma get_serves:
  assumes "serves sess h (p # ps)"
  shows "get dmn sess endpoint q h = (Inr p, h @ [(api_url dmn @ endpoint, q)])"
proof -
  obtain t where "sess h (api_url dmn @ endpoint) q = Response 200 p t"
    using serves_Cons(1)[OF assms] by blast
  then show ?thesis by (simp add: get_def)
qed

lemma get_paginated_loop_serves:
  "ps \<noteq> [] \<Longrightarrow> serves sess h ps \<Longrightarrow> \<forall>p \<in> set (butlast ps). has_next p \<Longrightarrow> \<not> has_next (last ps) \<Longrightarrow>
     get_paginated_loop dmn sess endpoint q acc h =
       Some (Inr (acc @ concat (map page_results ps)),
             h @ map (\<lambda>q. (api_url dmn @ endpoint, Some q)) (issued q ps))"
proof (induction ps arbitrary: q acc h)
  case Nil
  then show ?case by simp
next
  case (Cons p ps)
  have g: "get dmn sess endpoint (Some q) h = (Inr p, h @ [(api_url dmn @ endpoint, Some q)])"
    by (rule get_serves[OF Cons.prems(2)])
  show ?case
  proof (cases "ps = []")
    case True
    then have "\<not> has_next p" using Cons.prems(4) by simp
    then show ?thesis using True g
      by (subst get_paginated_loop.simps) (auto simp: has_next_truthy Let_def)
  next
    case False
    then have hn: "has_next p" and rest: "\<forall>p \<in> set (butlast ps). has_next p" and lst: "\<not> has_next (last ps)"
      using Cons.prems(3,4) by auto
    have sv: "serves sess (h @ [(api_url dmn @ endpoint, Some q)]) ps"
      by (rule serves_Cons(2)[OF Cons.prems(2)])
    have step: "get_paginated_loop dmn sess endpoint q acc h =
        get_paginated_loop dmn sess endpoint (next_params q p) (acc @ page_results p)
          (h @ [(api_url dmn @ endpoint, Some q)])"
      using hn g by (subst get_paginated_loop.simps) (auto simp: has_next_truthy Let_def next_params_def)
    show ?thesis
      unfolding step using Cons.IH[OF False sv rest lst] by simp
  qed
qed

lemma serves_scripted: "serves (scripted (map (\<lambda>p. Response 200 p t) ps)) [] ps"
  by (simp add: serves_def scripted_def)


text \<open>
  C2. When the session answers with the pages \<open>ps\<close>, every page but the last one
  continuing and the last one stopping (its \<open>nextPage\<close> absent, or present without an
  \<open>offset=\<close> token), \<open>_get_paginated\<close> returns: its result is the concatenation of the
  pages' \<open>results\<close> in page order, so its length is the sum of the page lengths; it has
  issued one request per page, each with the parameters of the one before and \<open>offset\<close>
  set from the \<open>nextPage\<close> just read. The offset is the text between the last \<open>offset=\<close>
  of \<open>nextPage\<close> and the next \<open>&\<close> or the end of the string.
\<close>

theorem get_paginated_concat:
  assumes "ps \<noteq> []" and "serves sess h ps"
    and "list_all has_next (butlast ps)" and "\<not> has_next (last ps)"
  shows "get_paginated dmn sess endpoint params h =
           Some (Inr (concat (map page_results ps)),
                 h @ map (\<lambda>q. (api_url dmn @ endpoint, Some q))
                       (issued (case params of None \<Rightarrow> [] | Some p \<Rightarrow> p) ps))
       \<and> length (concat (map page_results ps)) = sum_list (map (\<lambda>p. length (page_results p)) ps)
       \<and> (\<forall>pre v rest. \<not> py_in ''offset='' (v @ rest) \<and> CHR ''&'' \<notin> set v
              \<and> (rest = [] \<or> hd rest = CHR ''&'')
            \<longrightarrow> extract_offset (pre @ ''offset='' @ v @ rest) = v)"
proof -
  have run: "get_paginated dmn sess endpoint params h =
           Some (Inr (concat (map page_results ps)),
                 h @ map (\<lambda>q. (api_url dmn @ endpoint, Some q))
                       (issued (case params of None \<Rightarrow> [] | Some p \<Rightarrow> p) ps))"
    unfolding get_paginated_def
    using get_paginated_loop_serves[OF assms(1,2) _ assms(4), of dmn endpoint _ "[]"] assms(3)
    by (simp add: list_all_iff)
  have cnt: "length (concat (map page_results ps)) = sum_list (map (\<lambda>p. length (page_results p)) ps)"
    by (simp add: length_concat comp_def)
  have off: "\<forall>pre v rest. \<not> py_in ''offset='' (v @ rest) \<and> CHR ''&'' \<notin> set v
              \<and> (rest = [] \<or> hd rest = CHR ''&'')
            \<longrightarrow> extract_offset (pre @ ''offset='' @ v @ rest) = v"
    using extract_offset_between by blast
  show ?thesis using run cnt off by blast
qed

theorem get_paginated_concat_witness:
  "example_pages \<noteq> [] \<and> serves example_session [] example_pages
   \<and> list_all has_next (butlast example_pages) \<and> \<not> has_next (last example_pages)
   \<and> get_paginated ''d'' example_session ''/x'' None [] =
       Some (Inr [1, 2, 3],
             [(''d/learn/api/public/v1/x'', Some []),
              (''d/learn/api/public/v1/x'', Some [(''offset'', ''2'')])])"
proof -
  have h1: "example_pages \<noteq> []" by (simp add: example_pages_def)
  have h2: "serves example_session [] example_pages"
    unfolding example_session_def by (rule serves_scripted)
  have h3: "list_all has_next (butlast example_pages)"
    by (simp add: example_pages_def has_next_def page_next_def startswith_def)
  have h4: "\<not> has_next (last example_pages)"
    by (simp add: example_pages_def has_next_def page_next_def)
  have ex: "extract_offset ''/learn/api/public/v1/x?offset=2&limit=2'' = ''2''"
    by (simp add: extract_offset_def startswith_def)
  show ?thesis
    using h1 h2 h3 h4 get_paginated_concat[OF h1 h2 h3 h4, of "''d''" "''/x''" None] ex
    by (simp add: example_pages_def page_results_def page_next_def next_params_def api_url_def)
qed


section \<open>The two walkers agree\<close>

lemma get_get_v2:
  assumes "same_responses s1 s2" "map snd h1 = map snd h2"
  shows "observed (map_prod (map_sum id (\<lambda>b. [])) id (get d s1 e q h1)) = observed (map_prod (map_sum id (\<lambda>b. [])) id (get_v2 d s2 e q h2))
     \<and> (\<forall>b. fst (get d s1 e q h1) = Inr b \<longleftrightarrow> fst (get_v2 d s2 e q h2) = Inr b)
     \<and> map snd (snd (get d s1 e q h1)) = map snd (snd (get_v2 d s2 e q h2))"
proof -
  have "s1 h1 (api_url d @ e) q = s2 h2 (d @ ''/learn/api/public/v2'' @ e) q"
    using assms unfolding same_responses_def by blast
  then show ?thesis using assms(2)
    by (auto simp: get_def get_v2_def observed_def Let_def split: http_result.splits)
qed

lemma v1_to_v2_aux:
  "get_paginated_loop d s1 e q acc h1 = Some y \<Longrightarrow>
     (\<forall>h2. same_responses s1 s2 \<longrightarrow> map snd h1 = map snd h2 \<longrightarrow>
        (\<exists>y'. get_paginated_v2_loop d s2 e q acc h2 = Some y' \<and> observed y = observed y'))"
proof (rule get_paginated_loop.raw_induct[where P = "\<lambda>d s1 e q acc h1 y. \<forall>h2. same_responses s1 s2 \<longrightarrow> map snd h1 = map snd h2 \<longrightarrow>
     (\<exists>y'. get_paginated_v2_loop d s2 e q acc h2 = Some y' \<and> observed y = observed y')"], goal_cases)
  case (1 f d s1 e q acc h1 y)
  show ?case
  proof (intro allI impI)
    fix h2 :: "request list"
    assume sr: "same_responses s1 s2" and mh: "map snd h1 = map snd h2"
    let ?u1 = "api_url d @ e" and ?u2 = "d @ ''/learn/api/public/v2'' @ e"
    have eq: "s1 h1 ?u1 (Some q) = s2 h2 ?u2 (Some q)"
      using sr mh unfolding same_responses_def by blast
    have mh': "map snd (h1 @ [(?u1, Some q)]) = map snd (h2 @ [(?u2, Some q)])"
      using mh by simp
    show "\<exists>y'. get_paginated_v2_loop d s2 e q acc h2 = Some y' \<and> observed y = observed y'"
    proof (cases "s2 h2 ?u2 (Some q)")
      case (RequestException m)
      then show ?thesis using 1(3) eq mh
        by (subst get_paginated_v2_loop.simps) (auto simp: get_def get_v2_def Let_def observed_def)
    next
      case (Response sc dat tx)
      show ?thesis
      proof (cases "sc = 200 \<and> truthy (page_next dat) \<and> py_in ''offset='' (the (page_next dat))")
        case False
        then show ?thesis using 1(3) eq mh Response
          by (subst get_paginated_v2_loop.simps) (auto simp: get_def get_v2_def Let_def observed_def)
      next
        case True
        let ?q' = "dict_set ''offset'' (extract_offset (the (page_next dat))) q"
        have "f d s1 e ?q' (acc @ page_results dat) (h1 @ [(?u1, Some q)]) = Some y"
          using 1(3) eq Response True by (simp add: get_def Let_def)
        then obtain y' where
          "get_paginated_v2_loop d s2 e ?q' (acc @ page_results dat) (h2 @ [(?u2, Some q)]) = Some y'"
          "observed y = observed y'"
          using 1(2) sr mh' by blast
        then show ?thesis using Response True
          by (subst get_paginated_v2_loop.simps) (simp add: get_v2_def Let_def)
      qed
    qed
  qed
next
  case 2
  then show ?case .
qed

lemma v2_to_v1_aux:
  "get_paginated_v2_loop d s2 e q acc h2 = Some y \<Longrightarrow>
     (\<forall>h1. same_responses s1 s2 \<longrightarrow> map snd h1 = map snd h2 \<longrightarrow>
        (\<exists>y'. get_paginated_loop d s1 e q acc h1 = Some y' \<and> observed y' = observed y))"
proof (rule get_paginated_v2_loop.raw_induct[where P = "\<lambda>d s2 e q acc h2 y. \<forall>h1. same_responses s1 s2 \<longrightarrow> map snd h1 = map snd h2 \<longrightarrow>
     (\<exists>y'. get_paginated_loop d s1 e q acc h1 = Some y' \<and> observed y' = observed y)"], goal_cases)
  case (1 f d s2 e q acc h2 y)
  show ?case
  proof (intro allI impI)
    fix h1 :: "request list"
    assume sr: "same_responses s1 s2" and mh: "map snd h1 = map snd h2"
    let ?u1 = "api_url d @ e" and ?u2 = "d @ ''/learn/api/public/v2'' @ e"
    have eq: "s1 h1 ?u1 (Some q) = s2 h2 ?u2 (Some q)"
      using sr mh unfolding same_responses_def by blast
    have mh': "map snd (h1 @ [(?u1, Some q)]) = map snd (h2 @ [(?u2, Some q)])"
      using mh by simp
    show "\<exists>y'. get_paginated_loop d s1 e q acc h1 = Some y' \<and> observed y' = observed y"
    proof (cases "s2 h2 ?u2 (Some q)")
      case (RequestException m)
      then show ?thesis using 1(3) eq mh
        by (subst get_paginated_loop.simps) (auto simp: get_def get_v2_def Let_def observed_def)
    next
      case (Response sc dat tx)
      show ?thesis
      proof (cases "sc = 200 \<and> truthy (page_next dat) \<and> py_in ''offset='' (the (page_next dat))")
        case False
        then show ?thesis using 1(3) eq mh Response
          by (subst get_paginated_loop.simps) (auto simp: get_def get_v2_def Let_def observed_def)
      next
        case True
        let ?q' = "dict_set ''offset'' (extract_offset (the (page_next dat))) q"
        have "f d s2 e ?q' (acc @ page_results dat) (h2 @ [(?u2, Some q)]) = Some y"
          using 1(3) Response True by (simp add: get_v2_def Let_def)
        then obtain y' where
          "get_paginated_loop d s1 e ?q' (acc @ page_results dat) (h1 @ [(?u1, Some q)]) = Some y'"
          "observed y' = observed y"
          using 1(2) sr mh' by blast
        then show ?thesis using Response True eq
          by (subst get_paginated_loop.simps) (simp add: get_def Let_def)
      qed
    qed
  qed
next
  case 2
  then show ?case .
qed

lemma loops_agree:
  assumes "same_responses s1 s2" "map snd h1 = map snd h2"
  shows "map_option observed (get_paginated_loop d s1 e q acc h1)
       = map_option observed (get_paginated_v2_loop d s2 e q acc h2)"
proof (cases "get_paginated_loop d s1 e q acc h1")
  case None
  have "get_paginated_v2_loop d s2 e q acc h2 = None"
  proof (rule ccontr)
    assume "get_paginated_v2_loop d s2 e q acc h2 \<noteq> None"
    then obtain y where "get_paginated_v2_loop d s2 e q acc h2 = Some y" by blast
    then show False using v2_to_v1_aux[of d s2 e q acc h2 y s1] assms None by auto
  qed
  then show ?thesis using None by simp
next
  case (Some y)
  then show ?thesis using v1_to_v2_aux[of d s1 e q acc h1 y s2] assms by auto
qed

lemma same_responses_scripted: "same_responses (scripted rs) (scripted rs)"
  unfolding same_responses_def scripted_def by (metis length_map)


text \<open>
  C8. On sessions that give the same responses, \<open>_get_paginated\<close> and
  \<open>_get_paginated_v2\<close> observe the same: both return or neither does, with the same
  result list (or both raise), after requests with the same sequence of parameters.
  Only the base path of the URLs (and the wording of the error message) differs.
\<close>

theorem walkers_agree:
  assumes "same_responses s1 s2" "map snd h1 = map snd h2"
  shows "map_option observed (get_paginated d s1 e ps h1)
       = map_option observed (get_paginated_v2 d s2 e ps h2)"
  unfolding get_paginated_def get_paginated_v2_def by (rule loops_agree[OF assms])

theorem walkers_agree_witness:
  "same_responses example_session example_session
   \<and> map_option observed (get_paginated ''d'' example_session ''/x'' None [])
     = Some (Some [1, 2, 3], [Some [], Some [(''offset'', ''2'')]])
   \<and> map_option observed (get_paginated_v2 ''d'' example_session ''/x'' None [])
     = Some (Some [1, 2, 3], [Some [], Some [(''offset'', ''2'')]])"
proof -
  have h1: "same_responses example_session example_session"
    unfolding example_session_def by (rule same_responses_scripted)
  have h2: "map snd ([] :: request list) = map snd ([] :: request list)" by simp
  have v1: "get_paginated ''d'' example_session ''/x'' None [] =
       Some (Inr [1, 2, 3],
             [(''d/learn/api/public/v1/x'', Some []),
              (''d/learn/api/public/v1/x'', Some [(''offset'', ''2'')])])"
    by code_simp
  show ?thesis
    using h1 v1 walkers_agree[OF h1 h2, of "''d''" "''/x''" None]
    by (simp add: observed_def)
qed

section \<open>Assignment classification\<close>

lemma count_assignments_tally:
  "count_assignments assignments n =
     \<lparr> on_time = on_time n + tally OnTime assignments,
       late = late n + tally Late assignments,
       missed = missed n + tally Missed assignments,
       available = available n + tally Available assignments \<rparr>"
proof (induction assignments arbitrary: n)
  case Nil
  then show ?case by (simp add: tally_def)
next
  case (Cons a rest)
  show ?case
    by (simp add: Cons.IH tally_def classify_def)
qed

lemma tally_total:
  "tally OnTime xs + tally Late xs + tally Missed xs + tally Available xs = length xs"
proof (induction xs)
  case Nil
  then show ?case by (simp add: tally_def)
next
  case (Cons a xs)
  have "classify a = OnTime \<or> classify a = Late \<or> classify a = Missed \<or> classify a = Available"
    by (cases "classify a") auto
  then show ?case using Cons by (auto simp: tally_def)
qed

text \<open>
  C1. The loop of \<open>get_course_assignment_stats\<close> counts every assignment in exactly one
  of the four buckets, the one that the priority order of the specification gives
  (\<open>classify\<close>): the four counters are the numbers of assignments of each bucket and add
  up to the total. A graded assignment with score 0 is counted as missed whatever its
  other flags are.
\<close>

theorem assignment_classification:
  "cas_counts (course_stats_of course_id assignments) =
     \<lparr> on_time = tally OnTime assignments, late = tally Late assignments,
       missed = tally Missed assignments, available = tally Available assignments \<rparr>
   \<and> cas_total (course_stats_of course_id assignments) = length assignments
   \<and> tally OnTime assignments + tally Late assignments + tally Missed assignments
       + tally Available assignments = length assignments
   \<and> (graded a \<and> score a = Some 0 \<longrightarrow>
        classify a = Missed
        \<and> count_assignments [a] no_counts = no_counts\<lparr>missed := 1\<rparr>)
   \<and> (get_course_assignments c course_id h = Some (Inr assignments, h') \<longrightarrow>
        get_course_assignment_stats c course_id h
          = Some (Inr (course_stats_of course_id assignments), h'))"
proof -
  have a: "cas_counts (course_stats_of course_id assignments) =
     \<lparr> on_time = tally OnTime assignments, late = tally Late assignments,
       missed = tally Missed assignments, available = tally Available assignments \<rparr>"
    by (simp add: course_stats_of_def Let_def count_assignments_tally no_counts_def)
  have b: "cas_total (course_stats_of course_id assignments) = length assignments"
    by (simp add: course_stats_of_def Let_def)
  have d: "graded a \<and> score a = Some 0 \<longrightarrow>
        classify a = Missed \<and> count_assignments [a] no_counts = no_counts\<lparr>missed := 1\<rparr>"
    by (simp add: classify_def no_counts_def)
  have e: "get_course_assignments c course_id h = Some (Inr assignments, h') \<longrightarrow>
        get_course_assignment_stats c course_id h
          = Some (Inr (course_stats_of course_id assignments), h')"
    by (simp add: get_course_assignment_stats_def)
  show ?thesis using a b tally_total[of assignments] d e by blast
qed

theorem assignment_classification_witness:
  "cas_counts (course_stats_of ''_1_1''
       [example_assignment,
        example_assignment\<lparr>score := Some 12\<rparr>,
        example_assignment\<lparr>score := Some 12, is_past_due := True\<rparr>,
        example_assignment\<lparr>score := None, graded := False, submitted := False,
                           is_past_due := True, accepts_late := False\<rparr>,
        example_assignment\<lparr>score := None, graded := False, submitted := False\<rparr>])
     = \<lparr> on_time = 1, late = 1, missed = 2, available = 1 \<rparr>
   \<and> classify example_assignment = Missed
   \<and> count_assignments [example_assignment] no_counts = no_counts\<lparr>missed := 1\<rparr>
   \<and> map_option fst (get_course_assignment_stats example_client ''_1_1'' [])
       = Some (Inr \<lparr> cas_course_id = ''_1_1'', cas_course_name = None, cas_total = 2,
                     cas_counts = \<lparr> on_time = 1, late = 0, missed = 0, available = 1 \<rparr>,
                     cas_on_time_rate = 1 / 2 \<rparr>)"
proof -
  have g: "graded example_assignment \<and> score example_assignment = Some 0"
    by (simp add: example_assignment_def)
  have run: "map_option fst (get_course_assignment_stats example_client ''_1_1'' [])
       = Some (Inr \<lparr> cas_course_id = ''_1_1'', cas_course_name = None, cas_total = 2,
                     cas_counts = \<lparr> on_time = 1, late = 0, missed = 0, available = 1 \<rparr>,
                     cas_on_time_rate = 1 / 2 \<rparr>)"
    by code_simp
  show ?thesis
    using g run
      assignment_classification[of "''_1_1''"
        "[example_assignment,
        example_assignment\<lparr>score := Some 12\<rparr>,
        example_assignment\<lparr>score := Some 12, is_past_due := True\<rparr>,
        example_assignment\<lparr>score := None, graded := False, submitted := False,
                           is_past_due := True, accepts_late := False\<rparr>,
        example_assignment\<lparr>score := None, graded := False, submitted := False\<rparr>]"
        example_assignment]
    by (simp add: tally_def classify_def example_assignment_def)
qed

section \<open>A failing gradebook column listing\<close>

text \<open>
  C3 as stated fails: the column listing raises \<open>BBAPIError\<close> (status 500) and
  \<open>get_course_assignments\<close> returns the empty list instead of raising.
\<close>

theorem get_course_assignments_propagates_counterexample:
  "get_paginated_v2 (domain failing_client) (session_columns failing_client)
       ''/courses/_1_1/gradebook/columns'' None []
     = Some (Inl (BBAPIError ''API v2 request failed: /courses/_1_1/gradebook/columns''
                    (Some 500) (Some ''Internal Server Error'')),
             [(''https://esprit.blackboard.com/learn/api/public/v2/courses/_1_1/gradebook/columns'',
               Some [])])
   \<and> get_course_assignments failing_client ''_1_1'' []
     = Some (Inr [],
             [(''https://esprit.blackboard.com/learn/api/public/v2/courses/_1_1/gradebook/columns'',
               Some [])])"
  by code_simp

text \<open>
  C3 (amended). When the gradebook column listing fails with a \<open>BBAPIError\<close>,
  \<open>get_course_assignments\<close> catches it and returns the empty list.
\<close>

theorem get_course_assignments_swallows_listing_error:
  assumes "get_paginated_v2 (domain c) (session_columns c)
             (''/courses/'' @ course_id @ ''/gradebook/columns'') None h = Some (Inl e, h')"
  shows "get_course_assignments c course_id h = Some (Inr [], h')"
  using assms by (simp add: get_course_assignments_def)

theorem get_course_assignments_swallows_listing_error_witness:
  "get_course_assignments failing_client ''_1_1'' []
     = Some (Inr [],
             [(''https://esprit.blackboard.com/learn/api/public/v2/courses/_1_1/gradebook/columns'',
               Some [])])"
proof -
  have l: "get_paginated_v2 (domain failing_client) (session_columns failing_client)
       (''/courses/'' @ ''_1_1'' @ ''/gradebook/columns'') None []
     = Some (Inl (BBAPIError ''API v2 request failed: /courses/_1_1/gradebook/columns''
                    (Some 500) (Some ''Internal Server Error'')),
             [(''https://esprit.blackboard.com/learn/api/public/v2/courses/_1_1/gradebook/columns'',
               Some [])])"
    by code_simp
  show ?thesis by (rule get_course_assignments_swallows_listing_error[OF l])
qed

section \<open>The cookies-only refresh of the cache file\<close>

lemma dict_get_dict_set:
  "dict_get (dict_set k v d) k' = (if k' = k then Some v else dict_get d k')"
  by (induction d) (auto simp: dict_get_def)

lemma filter_dict_set:
  "\<not> P (k, v) \<Longrightarrow> (\<And>w. \<not> P (k, w)) \<Longrightarrow> filter P (dict_set k v d) = filter P d"
  by (induction d) auto

text \<open>
  C5. On a cache file that holds a JSON object, \<open>update_id_file_cookies\<close> succeeds and
  changes the fields \<open>cookies\<close> and \<open>updated_at\<close> only: all other fields, among them
  \<open>user\<close>, \<open>courses\<close>, the stored credentials and the metric fields, keep their
  values and their order.
\<close>

theorem update_id_file_cookies_frame:
  "\<exists>d'. update_id_file_cookies path session_cookies now (Json (JObj d)) = (Inr (), Json (JObj d'))
      \<and> other_fields d' = other_fields d
      \<and> (k \<noteq> ''cookies'' \<and> k \<noteq> ''updated_at'' \<longrightarrow> dict_get d' k = dict_get d k)
      \<and> dict_get d' ''user'' = dict_get d ''user''
      \<and> dict_get d' ''courses'' = dict_get d ''courses''
      \<and> dict_get d' ''credentials'' = dict_get d ''credentials''
      \<and> dict_get d' ''isNerd'' = dict_get d ''isNerd''
      \<and> dict_get d' ''isAttending'' = dict_get d ''isAttending''
      \<and> dict_get d' ''on_time_rate'' = dict_get d ''on_time_rate''
      \<and> dict_get d' ''attendance_percentage'' = dict_get d ''attendance_percentage''
      \<and> dict_get d' ''generated_at'' = dict_get d ''generated_at''
      \<and> dict_get d' ''cookies'' = Some (cookies_json session_cookies)
      \<and> dict_get d' ''updated_at'' = Some (JStr now)"
proof -
  let ?d' = "dict_set ''updated_at'' (JStr now) (dict_set ''cookies'' (cookies_json session_cookies) d)"
  have r: "update_id_file_cookies path session_cookies now (Json (JObj d)) = (Inr (), Json (JObj ?d'))"
    by (simp add: update_id_file_cookies_def)
  have o: "other_fields ?d' = other_fields d"
    by (simp add: other_fields_def filter_dict_set)
  show ?thesis
    using r o by (intro exI[of _ ?d']) (simp add: dict_get_dict_set)
qed

theorem update_id_file_cookies_frame_witness:
  "update_id_file_cookies ''user.id'' example_cookies ''2025-02-02T08:00:00'' example_file =
     (Inr (),
      Json (JObj [(''generated_at'', JStr ''2025-01-01T10:00:00''),
                  (''cookies'', cookies_json example_cookies),
                  (''credentials'', JObj [(''username'', JStr ''STUDENT''), (''password'', JStr ''pw'')]),
                  (''user'', JObj [(''name'', JStr ''A B'')]),
                  (''courses'', JArr []),
                  (''isNerd'', JBool True),
                  (''updated_at'', JStr ''2025-02-02T08:00:00'')]))"
  using update_id_file_cookies_frame[of "''user.id''" example_cookies "''2025-02-02T08:00:00''"
      "[(''generated_at'', JStr ''2025-01-01T10:00:00''),
                 (''cookies'', JArr []),
                 (''credentials'', JObj [(''username'', JStr ''STUDENT''), (''password'', JStr ''pw'')]),
                 (''user'', JObj [(''name'', JStr ''A B'')]),
                 (''courses'', JArr []),
                 (''isNerd'', JBool True)]" "''user''"]
  by (simp add: example_file_def update_id_file_cookies_def)

section \<open>The stored credentials\<close>

text \<open>
  C10. \<open>save_id_file\<close> does not depend on the user name its caller passes: the stored
  \<open>credentials.username\<close> is the upper-cased \<open>userName\<close> of the API user data, and the
  \<open>credentials\<close> field is present exactly when that \<open>userName\<close> and the password are
  non-empty; with a missing or empty \<open>userName\<close> it is left out of the file.
\<close>

theorem save_id_file_credentials:
  "save_id_file cs ud courses instructors username password now
     = save_id_file cs ud courses instructors username' password now
   \<and> (\<exists>d. save_id_file cs ud courses instructors username password now = Json (JObj d)
        \<and> dict_get d ''credentials'' =
            (if or_empty (ud_userName ud) \<noteq> [] \<and> truthy password
             then Some (JObj [(''username'', JStr (py_upper (or_empty (ud_userName ud)))),
                              (''password'', json_of_option password)])
             else None)
        \<and> (or_empty (ud_userName ud) = [] \<longrightarrow> ''credentials'' \<notin> fst ` set d))"
  by (simp add: save_id_file_def Let_def dict_get_def dict_del_def)

theorem save_id_file_credentials_witness:
  "(case save_id_file example_cookies example_user [] [] (Some ''login.name'') (Some ''pw'') ''t'' of
      Json (JObj d) \<Rightarrow> dict_get d ''credentials'' | _ \<Rightarrow> None)
     = Some (JObj [(''username'', JStr ''ADA.LOVELACE''), (''password'', JStr ''pw'')])
   \<and> (case save_id_file example_cookies nameless_user [] [] (Some ''login.name'') (Some ''pw'') ''t'' of
      Json (JObj d) \<Rightarrow> map fst d | _ \<Rightarrow> [])
     = [''generated_at'', ''cookies'', ''user'', ''courses'', ''isNerd'', ''isAttending'',
        ''on_time_rate'', ''attendance_percentage'']"
proof -
  have u: "py_upper ''ada.lovelace'' = ''ADA.LOVELACE''" by code_simp
  obtain d where d: "save_id_file example_cookies example_user [] [] (Some ''login.name'') (Some ''pw'') ''t''
       = Json (JObj d)"
    and c: "dict_get d ''credentials'' =
            (if or_empty (ud_userName example_user) \<noteq> [] \<and> truthy (Some ''pw'')
             then Some (JObj [(''username'', JStr (py_upper (or_empty (ud_userName example_user)))),
                              (''password'', json_of_option (Some ''pw''))])
             else None)"
    using save_id_file_credentials[of example_cookies example_user "[]" "[]" "Some ''login.name''"
        "Some ''pw''" "''t''"] by blast
  have c': "dict_get d ''credentials''
      = Some (JObj [(''username'', JStr ''ADA.LOVELACE''), (''password'', JStr ''pw'')])"
    unfolding c by (simp add: example_user_def or_empty_def truthy_def u json_of_option_def)
  have n: "(case save_id_file example_cookies nameless_user [] [] (Some ''login.name'') (Some ''pw'') ''t'' of
      Json (JObj d) \<Rightarrow> map fst d | _ \<Rightarrow> [])
     = [''generated_at'', ''cookies'', ''user'', ''courses'', ''isNerd'', ''isAttending'',
        ''on_time_rate'', ''attendance_percentage'']"
    by code_simp
  show ?thesis using d c' n by simp
qed

section \<open>Rounding\<close>

text \<open>
  \<open>round_half_even\<close> gives a nearest integer, the even one at a tie, and is the only
  function that does.
\<close>

lemma round_half_even_nearest:
  "\<bar>x - of_int (round_half_even x)\<bar> \<le> 1 / 2"
proof -
  have fl: "of_int \<lfloor>x\<rfloor> \<le> x" "x < of_int \<lfloor>x\<rfloor> + 1" by linarith+
  then show ?thesis by (auto simp: round_half_even_def Let_def)
qed

lemma round_half_even_tie:
  assumes "\<bar>x - of_int (round_half_even x)\<bar> = 1 / 2"
  shows "even (round_half_even x)"
proof -
  define f where "f = \<lfloor>x\<rfloor>"
  define d where "d = x - of_int f"
  have fl: "0 \<le> d" "d < 1" unfolding d_def f_def by linarith+
  have r: "round_half_even x =
             (if d < 1 / 2 then f else if d > 1 / 2 then f + 1 else if even f then f else f + 1)"
    by (simp add: round_half_even_def Let_def d_def f_def)
  consider "d < 1 / 2" | "d > 1 / 2" | "d = 1 / 2" by linarith
  then show ?thesis
  proof cases
    case 1
    then have "\<bar>x - of_int (round_half_even x)\<bar> = d" using fl r by (simp add: d_def)
    then show ?thesis using assms 1 by simp
  next
    case 2
    then have "round_half_even x = f + 1" using r by simp
    then have "\<bar>x - of_int (round_half_even x)\<bar> = 1 - d" using fl by (simp add: d_def)
    then show ?thesis using assms 2 by simp
  next
    case 3
    then show ?thesis using r by simp
  qed
qed

lemma round_half_even_unique:
  assumes "\<bar>x - of_int n\<bar> \<le> 1 / 2" and "\<bar>x - of_int n\<bar> = 1 / 2 \<longrightarrow> even n"
  shows "n = round_half_even x"
proof -
  let ?m = "round_half_even x"
  have m: "\<bar>x - of_int ?m\<bar> \<le> 1 / 2" by (rule round_half_even_nearest)
  have "\<bar>(of_int n :: rat) - of_int ?m\<bar> \<le> 1" using assms(1) m by linarith
  then have "\<bar>(of_int (n - ?m) :: rat)\<bar> \<le> 1" by simp
  then have d: "\<bar>n - ?m\<bar> \<le> 1" by (metis of_int_abs of_int_le_1_iff)
  show ?thesis
  proof (rule ccontr)
    assume ne: "n \<noteq> ?m"
    then have c: "n = ?m + 1 \<or> n = ?m - 1" using d by linarith
    have "(of_int n :: rat) = of_int ?m + 1 \<or> (of_int n :: rat) = of_int ?m - 1"
      using c by auto
    then have "\<bar>x - of_int n\<bar> = 1 / 2 \<and> \<bar>x - of_int ?m\<bar> = 1 / 2"
      using assms(1) m by linarith
    then have "even n" "even ?m" using assms(2) round_half_even_tie by blast+
    then show False using c by auto
  qed
qed

lemma py_round2_nearest:
  "\<exists>n::int. py_round2 x = float_of (of_int n / 100)
      \<and> \<bar>x * 100 - of_int n\<bar> \<le> 1 / 2
      \<and> (\<bar>x * 100 - of_int n\<bar> = 1 / 2 \<longrightarrow> even n)"
  unfolding py_round2_def
  using round_half_even_nearest[of "x * 100"] round_half_even_tie[of "x * 100"] by blast

lemma float_of_zero: "float_of 0 = 0"
  by (simp add: float_of_def)

lemma py_round2_zero: "py_round2 0 = 0"
  by (simp add: py_round2_def round_half_even_def float_of_zero)

text \<open>
  The exponent found by \<open>floor_log2\<close> brackets its argument, so \<open>float_of\<close> is off by
  at most half a unit in the last place: a relative error of at most \<open>2^-53\<close> in the
  normal range.
\<close>

lemma pow2_power_int: "pow2 e = power_int 2 e"
  by (simp add: pow2_def power_int_def power_one_over inverse_eq_divide)

lemma pow2_pos: "0 < pow2 e"
  by (simp add: pow2_power_int)

lemma pow2_add: "pow2 (a + b) = pow2 a * pow2 b"
  by (simp add: pow2_power_int power_int_add)

lemma pow2_mono: "a \<le> b \<Longrightarrow> pow2 a \<le> pow2 b"
  by (simp add: pow2_power_int power_int_increasing)

lemma pow2_strict_mono: "a < b \<Longrightarrow> pow2 a < pow2 b"
  by (simp add: pow2_power_int power_int_strict_increasing)

lemma bits_nonneg: "0 \<le> bits n"
  by (induction n rule: bits.induct) (subst bits.simps, simp)

lemma bits_pos: "0 < n \<Longrightarrow> 1 \<le> bits n"
  using bits_nonneg[of "n div 2"] by (subst bits.simps) simp

lemma bits_bounds:
  "0 < n \<Longrightarrow> 2 ^ nat (bits n - 1) \<le> n \<and> n < 2 ^ nat (bits n)"
proof (induction n rule: bits.induct)
  case (1 n)
  let ?m = "n div 2"
  have b: "bits n = 1 + bits ?m" using 1(2) by (subst bits.simps) simp
  show ?case
  proof (cases "?m = 0")
    case True
    then have n1: "n = 1" using 1(2) by linarith
    have "bits ?m = 0" using True by (subst bits.simps) simp
    then show ?thesis using b n1 by simp
  next
    case False
    then have mp: "0 < ?m" using 1(2) by linarith
    then have ih: "2 ^ nat (bits ?m - 1) \<le> ?m" "?m < 2 ^ nat (bits ?m)"
      using 1(1) 1(2) by simp_all
    have bp: "1 \<le> bits ?m" by (rule bits_pos[OF mp])
    have e1: "nat (bits n - 1) = Suc (nat (bits ?m - 1))" using b bp by simp
    have e2: "nat (bits n) = Suc (nat (bits ?m))" using b bp by simp
    have "2 * ?m \<le> n" "n < 2 * ?m + 2" by linarith+
    then show ?thesis unfolding e1 e2 using ih by simp
  qed
qed

lemma bits_bounds_rat:
  assumes "0 < n"
  shows "pow2 (bits n - 1) \<le> of_int n" and "of_int n < pow2 (bits n)"
proof -
  have bp: "1 \<le> bits n" by (rule bits_pos[OF assms])
  have "(of_int (2 ^ nat (bits n - 1)) :: rat) \<le> of_int n"
    using bits_bounds[OF assms] by (simp only: of_int_le_iff)
  then show "pow2 (bits n - 1) \<le> of_int n" using bp by (simp add: pow2_def)
  have "(of_int n :: rat) < of_int (2 ^ nat (bits n))"
    using bits_bounds[OF assms] by (simp only: of_int_less_iff)
  then show "of_int n < pow2 (bits n)" using bp by (simp add: pow2_def)
qed

lemma floor_log2_bounds:
  assumes "0 < x"
  shows "pow2 (floor_log2 x) \<le> x" and "x < pow2 (floor_log2 x + 1)"
proof -
  obtain p q where pq: "quotient_of x = (p, q)" by (cases "quotient_of x")
  have q: "0 < q" by (rule quotient_of_denom_pos[OF pq])
  have x: "x = of_int p / of_int q" using pq by (rule quotient_of_div)
  have p: "0 < p" using assms q x by (simp add: zero_less_divide_iff)
  let ?e = "bits p - bits q"
  note bp = bits_bounds_rat[OF p] and bq = bits_bounds_rat[OF q]
  have Q: "(0::rat) < of_int q" using q by simp
  have up: "x < pow2 (?e + 1)"
  proof -
    have "x * of_int q = of_int p" using x Q by simp
    also have "\<dots> < pow2 (bits p)" by (rule bp(2))
    also have "\<dots> = pow2 (?e + 1) * pow2 (bits q - 1)"
      by (simp flip: pow2_add)
    also have "\<dots> \<le> pow2 (?e + 1) * of_int q"
      using bq(1) pow2_pos[of "?e + 1"] by (simp add: mult_left_mono)
    finally show ?thesis using Q by simp
  qed
  have lo: "pow2 (?e - 1) \<le> x"
  proof -
    have "pow2 (?e - 1) * of_int q \<le> pow2 (?e - 1) * pow2 (bits q)"
      using bq(2) pow2_pos[of "?e - 1"] by (simp add: mult_left_mono)
    also have "\<dots> = pow2 (bits p - 1)" by (simp flip: pow2_add)
    also have "\<dots> \<le> of_int p" by (rule bp(1))
    also have "\<dots> = x * of_int q" using x Q by simp
    finally show ?thesis using Q by simp
  qed
  have fl: "floor_log2 x = (if pow2 ?e \<le> x then ?e else ?e - 1)"
    by (simp add: floor_log2_def pq Let_def)
  show "pow2 (floor_log2 x) \<le> x" using fl lo by simp
  show "x < pow2 (floor_log2 x + 1)" using fl up by (simp split: if_splits)
qed

lemma float_of_error:
  assumes "pow2 (- 1022) \<le> \<bar>x\<bar>"
  shows "\<bar>float_of x - x\<bar> \<le> \<bar>x\<bar> * pow2 (- 53)"
proof -
  have xp: "0 < \<bar>x\<bar>" using assms pow2_pos[of "- 1022"] by linarith
  then have x0: "x \<noteq> 0" by simp
  let ?e = "floor_log2 \<bar>x\<bar>"
  note b = floor_log2_bounds[OF xp]
  have "pow2 (- 1022) < pow2 (?e + 1)" using assms b(2) by linarith
  then have "- 1022 < ?e + 1"
    using pow2_mono[of "?e + 1" "- 1022"] by (cases "- 1022 < ?e + 1") auto
  then have m: "max ?e (- 1022) = ?e" by simp
  let ?u = "pow2 (?e - 52)"
  have up: "0 < ?u" by (rule pow2_pos)
  have f: "float_of x = of_int (round_half_even (x / ?u)) * ?u"
    using x0 by (simp add: float_of_def Let_def m)
  have "\<bar>x / ?u - of_int (round_half_even (x / ?u))\<bar> \<le> 1 / 2"
  proof -
    have fl: "of_int \<lfloor>x / ?u\<rfloor> \<le> x / ?u" "x / ?u < of_int \<lfloor>x / ?u\<rfloor> + 1" by linarith+
    then show ?thesis by (auto simp: round_half_even_def Let_def)
  qed
  then have "\<bar>x / ?u - of_int (round_half_even (x / ?u))\<bar> * ?u \<le> 1 / 2 * ?u"
    using up by (simp add: mult_right_mono)
  moreover have "\<bar>x / ?u - of_int (round_half_even (x / ?u))\<bar> * ?u
                   = \<bar>x - of_int (round_half_even (x / ?u)) * ?u\<bar>"
  proof -
    have "\<bar>x / ?u - of_int (round_half_even (x / ?u))\<bar> * ?u
            = \<bar>(x / ?u - of_int (round_half_even (x / ?u))) * ?u\<bar>"
      using up by (simp add: abs_mult)
    also have "(x / ?u - of_int (round_half_even (x / ?u))) * ?u
                 = x - of_int (round_half_even (x / ?u)) * ?u"
      using up by (simp add: field_simps)
    finally show ?thesis .
  qed
  ultimately have e1: "\<bar>float_of x - x\<bar> \<le> 1 / 2 * ?u" unfolding f by (simp add: abs_minus_commute)
  have "1 / 2 * ?u = pow2 (- 1) * pow2 (?e - 52)" by (simp add: pow2_def)
  also have "\<dots> = pow2 ?e * pow2 (- 53)" by (simp flip: pow2_add)
  also have "\<dots> \<le> \<bar>x\<bar> * pow2 (- 53)"
    using b(1) pow2_pos[of "- 53"] by (simp add: mult_right_mono)
  finally show ?thesis using e1 by linarith
qed

lemma pow2_m53: "pow2 (- 53) = 1 / 9007199254740992"
  by (simp add: pow2_def)

lemma pow2_m1022_small: "pow2 (- 1022) \<le> 1 / 2 ^ 32"
proof -
  have "pow2 (- 1022) \<le> pow2 (- 32)" by (rule pow2_mono) simp
  then show ?thesis by (simp add: pow2_def)
qed

text \<open>
  With fewer than \<open>2^32\<close> items, the float quotient of two counts is so close to the
  quotient that the hundredth nearest to the one is a hundredth nearest to the other.
\<close>

lemma abs_scale_100: "\<bar>u * 100 - v * 100\<bar> = \<bar>u - v\<bar> * (100::rat)"
proof -
  have h: "u * 100 - v * 100 = (u - v) * 100" by (simp add: algebra_simps)
  have "\<bar>(u - v) * 100\<bar> = \<bar>u - v\<bar> * \<bar>100::rat\<bar>" by (rule abs_mult)
  then show ?thesis unfolding h by simp
qed

lemma half_plus_le:
  fixes B K :: rat
  assumes "0 < B" "B + 1 \<le> 2 * K"
  shows "1 / 2 + 1 / (2 * B) \<le> K / B"
proof -
  have "B * (B + 1) \<le> B * (2 * K)" using assms by (intro mult_left_mono) simp_all
  then show ?thesis using assms(1) by (simp add: field_simps)
qed

lemma nearest_of_close:
  fixes b :: nat and m n :: int and y :: rat
  assumes "0 < b"
    and "\<bar>y - of_int m / of_nat b\<bar> < 1 / (2 * of_nat b)"
    and "\<bar>y - of_int n\<bar> \<le> 1 / 2"
  shows "\<bar>of_int m / of_nat b - (of_int n :: rat)\<bar> \<le> 1 / 2"
proof (rule ccontr)
  assume "\<not> \<bar>of_int m / of_nat b - (of_int n :: rat)\<bar> \<le> 1 / 2"
  then have gt: "1 / 2 < \<bar>of_int m / of_nat b - (of_int n :: rat)\<bar>" by simp
  have B: "(0::rat) < of_nat b" using assms(1) by simp
  let ?k = "\<bar>m - n * int b\<bar>"
  have "of_int m / of_nat b - (of_int n :: rat) = of_int (m - n * int b) / of_nat b"
    using B by (simp add: field_simps)
  then have k: "\<bar>of_int m / of_nat b - (of_int n :: rat)\<bar> = of_int ?k / of_nat b"
    using B by (simp add: abs_divide del: of_int_diff of_int_mult)
  have "of_nat b < 2 * (of_int ?k :: rat)" using gt B unfolding k by (simp add: field_simps)
  then have "(of_int (int b) :: rat) < of_int (2 * ?k)" by simp
  then have "int b < 2 * ?k" by (simp only: of_int_less_iff)
  then have "int b + 1 \<le> 2 * ?k" by simp
  then have "(of_int (int b + 1) :: rat) \<le> of_int (2 * ?k)" by (simp only: of_int_le_iff)
  then have "of_nat b + 1 \<le> 2 * (of_int ?k :: rat)" by simp
  then have ge: "1 / 2 + 1 / (2 * of_nat b) \<le> (of_int ?k :: rat) / of_nat b"
    by (rule half_plus_le[OF B])
  have "\<bar>of_int m / of_nat b - (of_int n :: rat)\<bar>
          \<le> \<bar>y - of_int m / of_nat b\<bar> + \<bar>y - of_int n\<bar>" by linarith
  then have "\<bar>of_int m / of_nat b - (of_int n :: rat)\<bar> < 1 / (2 * of_nat b) + 1 / 2"
    using assms(2,3) by linarith
  then show False using ge unfolding k by linarith
qed

lemma float_quotient_close:
  fixes a b :: nat
  assumes "0 < b" "a \<le> b" "b < 2 ^ 32"
  shows "\<bar>float_of (of_nat a / of_nat b) - of_nat a / of_nat b\<bar> \<le> pow2 (- 53)"
    and "0 \<le> float_of (of_nat a / of_nat b)"
    and "0 < a \<Longrightarrow> 1 / 2 ^ 33 \<le> float_of (of_nat a / of_nat b)"
proof -
  let ?x = "(of_nat a / of_nat b) :: rat"
  have B: "(0::rat) < of_nat b" using assms(1) by simp
  have x1: "?x \<le> 1" using assms(2) B by simp
  have x0: "0 \<le> ?x" by simp
  have main: "\<bar>float_of ?x - ?x\<bar> \<le> pow2 (- 53) \<and> 0 \<le> float_of ?x
                \<and> (0 < a \<longrightarrow> 1 / 2 ^ 33 \<le> float_of ?x)"
  proof (cases "a = 0")
    case True
    then show ?thesis using pow2_pos[of "- 53"] by (simp add: float_of_def less_imp_le)
  next
    case False
    then have "(1::rat) \<le> of_nat a" by simp
    then have "1 / of_nat b \<le> ?x" using B by (simp add: divide_right_mono)
    moreover have "(of_nat b :: rat) < 2 ^ 32"
      using assms(3) by (metis of_nat_less_iff of_nat_numeral of_nat_power)
    then have "(1::rat) / 2 ^ 32 < 1 / of_nat b" using B by (simp add: field_simps)
    ultimately have lo: "(1::rat) / 2 ^ 32 < ?x" by linarith
    then have "pow2 (- 1022) \<le> \<bar>?x\<bar>" using pow2_m1022_small by linarith
    from float_of_error[OF this] have e: "\<bar>float_of ?x - ?x\<bar> \<le> ?x * pow2 (- 53)"
      using x0 by simp
    have "?x * pow2 (- 53) \<le> 1 * pow2 (- 53)"
      using x1 pow2_pos[of "- 53"] by (intro mult_right_mono) simp_all
    then have e1: "\<bar>float_of ?x - ?x\<bar> \<le> pow2 (- 53)" using e by linarith
    have "?x * pow2 (- 53) \<le> ?x * (1 / 2)"
      using x0 by (intro mult_left_mono) (simp_all add: pow2_m53)
    then have hx: "?x / 2 \<le> float_of ?x" using e by linarith
    have "(1::rat) / 2 ^ 33 = (1 / 2 ^ 32) / 2" by simp
    also have "\<dots> < ?x / 2" using lo by (rule divide_strict_right_mono) simp
    also have "\<dots> \<le> float_of ?x" by (rule hx)
    finally have "1 / 2 ^ 33 \<le> float_of ?x" by simp
    then show ?thesis using e1 by simp
  qed
  show "\<bar>float_of ?x - ?x\<bar> \<le> pow2 (- 53)" using main by blast
  show "0 \<le> float_of ?x" using main by blast
  show "0 < a \<Longrightarrow> 1 / 2 ^ 33 \<le> float_of ?x" using main by blast
qed


lemma percentage_nearest_exact:
  fixes a b :: nat and n :: int
  assumes "0 < b" "a \<le> b" "b < 2 ^ 32"
    and "\<bar>float_of (float_of (of_nat a / of_nat b) * 100) * 100 - of_int n\<bar> \<le> 1 / 2"
  shows "\<bar>of_nat a / of_nat b * 100 * 100 - (of_int n :: rat)\<bar> \<le> 1 / 2"
proof -
  let ?x = "(of_nat a / of_nat b) :: rat"
  let ?q = "float_of ?x"
  let ?p = "float_of (?q * 100)"
  let ?eps = "(1 / 9007199254740992) :: rat"
  have B: "(0::rat) < of_nat b" using assms(1) by simp
  have Bu: "(of_nat b :: rat) < 2 ^ 32"
    using assms(3) by (metis of_nat_less_iff of_nat_numeral of_nat_power)
  have x1: "?x \<le> 1" using assms(2) B by simp
  have e: "\<bar>?q - ?x\<bar> \<le> ?eps"
    using float_quotient_close(1)[OF assms(1-3)] by (simp add: pow2_m53)
  have q0: "0 \<le> ?q" by (rule float_quotient_close(2)[OF assms(1-3)])
  have q1: "?q \<le> 1 + ?eps" using e x1 by linarith
  have pe: "\<bar>?p - ?q * 100\<bar> \<le> 101 * ?eps"
  proof (cases "a = 0")
    case True
    then show ?thesis by (simp add: float_of_def)
  next
    case False
    then have "1 / 2 ^ 33 \<le> ?q" using float_quotient_close(3)[OF assms(1-3)] by simp
    then have "1 / 2 ^ 32 \<le> \<bar>?q * 100\<bar>" using q0 by simp
    then have "pow2 (- 1022) \<le> \<bar>?q * 100\<bar>" using pow2_m1022_small by linarith
    from float_of_error[OF this] have "\<bar>?p - ?q * 100\<bar> \<le> ?q * 100 * ?eps"
      using q0 by (simp add: pow2_m53)
    moreover have "?q * 100 * ?eps \<le> (1 + ?eps) * 100 * ?eps"
      using q1 by (intro mult_right_mono) simp_all
    moreover have "(1 + ?eps) * 100 * ?eps \<le> 101 * ?eps" by simp
    ultimately show ?thesis by linarith
  qed
  have "\<bar>?q * 100 - ?x * 100\<bar> = \<bar>?q - ?x\<bar> * 100" by (rule abs_scale_100)
  then have "\<bar>?p - ?x * 100\<bar> \<le> \<bar>?p - ?q * 100\<bar> + \<bar>?q - ?x\<bar> * 100" by linarith
  then have "\<bar>?p - ?x * 100\<bar> \<le> 201 * ?eps" using pe e by linarith
  moreover have "\<bar>?p * 100 - ?x * 100 * 100\<bar> = \<bar>?p - ?x * 100\<bar> * 100" by (rule abs_scale_100)
  ultimately have h1: "\<bar>?p * 100 - ?x * 100 * 100\<bar> \<le> 20100 * ?eps" by linarith
  have h2: "20100 * ?eps < 1 / (2 * of_nat b)"
    using B Bu by (simp add: field_simps)
  have xm: "of_int (int (10000 * a)) / of_nat b = ?x * 100 * 100" by simp
  have c: "\<bar>?p * 100 - of_int (int (10000 * a)) / of_nat b\<bar> < 1 / (2 * of_nat b)"
    unfolding xm using h1 h2 by (rule le_less_trans)
  have "\<bar>of_int (int (10000 * a)) / of_nat b - (of_int n :: rat)\<bar> \<le> 1 / 2"
    by (rule nearest_of_close[OF assms(1) c assms(4)])
  then show ?thesis unfolding xm .
qed

lemma hundredth_of_scaled:
  fixes u :: rat and n :: int
  assumes "\<bar>u * 100 - of_int n\<bar> \<le> 1 / 2"
  shows "\<bar>u - (of_int n :: rat) / 100\<bar> \<le> 1 / 200"
proof -
  have "u * 100 - of_int n = (u - of_int n / 100) * 100" by (simp add: algebra_simps)
  then have "\<bar>u * 100 - of_int n\<bar> = \<bar>u - of_int n / 100\<bar> * \<bar>100::rat\<bar>"
    by (simp only: abs_mult)
  then show ?thesis using assms by simp
qed







section \<open>The attendance percentage\<close>

lemma count_attendance_filter:
  "count_attendance records (p, a) =
     (p + length (filter is_present records), a + length (filter is_absent records))"
proof (induction records arbitrary: p a)
  case Nil
  then show ?case by simp
next
  case (Cons r records)
  show ?case
    by (simp add: Cons.IH is_present_def is_absent_def or_empty_def Let_def)
qed

text \<open>
  C7. \<open>get_course_attendance_percentage\<close>: every record counts toward the total; it
  counts as present when its status, lower-cased as the source does, is present, late or
  excused, as absent when it is absent, and toward neither bucket otherwise. The
  percentage is 0 for no record. Otherwise it is present / total times 100 rounded to two
  decimals: the float of the hundredth \<open>n / 100\<close>, where \<open>n\<close> is the integer nearest to
  100 times the float product \<open>present / total * 100\<close>, the even one at a tie; with fewer
  than \<open>2^32\<close> records this hundredth is within 0.005 of the exact percentage.
\<close>

theorem attendance_percentage:
  "ats_total (attendance_stats_of c course_id records) = length records
   \<and> ats_present (attendance_stats_of c course_id records) = length (filter is_present records)
   \<and> ats_absent (attendance_stats_of c course_id records) = length (filter is_absent records)
   \<and> (records = [] \<longrightarrow> ats_percentage (attendance_stats_of c course_id records) = 0)
   \<and> (records \<noteq> [] \<longrightarrow>
        (\<exists>n::int.
           ats_percentage (attendance_stats_of c course_id records) = float_of (of_int n / 100)
           \<and> \<bar>float_of (float_of (of_nat (length (filter is_present records))
                                       / of_nat (length records)) * 100) * 100 - of_int n\<bar> \<le> 1 / 2
           \<and> (\<bar>float_of (float_of (of_nat (length (filter is_present records))
                                        / of_nat (length records)) * 100) * 100 - of_int n\<bar> = 1 / 2
                \<longrightarrow> even n)
           \<and> (length records < 2 ^ 32 \<longrightarrow>
                \<bar>of_nat (length (filter is_present records)) / of_nat (length records) * 100
                   - (of_int n :: rat) / 100\<bar> \<le> 1 / 200)))
   \<and> (get_course_attendance c course_id h = Some (records, h') \<longrightarrow>
        get_course_attendance_percentage c course_id h
          = Some (attendance_stats_of c course_id records, h'))"
proof -
  let ?P = "length (filter is_present records)"
  let ?L = "length records"
  let ?q = "float_of (float_of (of_nat ?P / of_nat ?L) * 100)"
  let ?n = "round_half_even (?q * 100)"
  have cnt: "count_attendance records (0, 0) =
      (length (filter is_present records), length (filter is_absent records))"
    by (simp add: count_attendance_filter)
  have a: "ats_total (attendance_stats_of c course_id records) = length records"
    by (simp add: attendance_stats_of_def Let_def cnt)
  have b: "ats_present (attendance_stats_of c course_id records) = length (filter is_present records)"
    by (simp add: attendance_stats_of_def Let_def cnt)
  have d: "ats_absent (attendance_stats_of c course_id records) = length (filter is_absent records)"
    by (simp add: attendance_stats_of_def Let_def cnt)
  have f: "records = [] \<longrightarrow> ats_percentage (attendance_stats_of c course_id records) = 0"
    by (simp add: attendance_stats_of_def Let_def percentage_of_def py_round2_zero)
  have e: "records \<noteq> [] \<longrightarrow>
        (\<exists>n::int.
           ats_percentage (attendance_stats_of c course_id records) = float_of (of_int n / 100)
           \<and> \<bar>?q * 100 - of_int n\<bar> \<le> 1 / 2
           \<and> (\<bar>?q * 100 - of_int n\<bar> = 1 / 2 \<longrightarrow> even n)
           \<and> (?L < 2 ^ 32 \<longrightarrow> \<bar>of_nat ?P / of_nat ?L * 100 - (of_int n :: rat) / 100\<bar> \<le> 1 / 200))"
  proof
    assume ne: "records \<noteq> []"
    then have lp: "0 < ?L" by simp
    have p: "ats_percentage (attendance_stats_of c course_id records) = float_of (of_int ?n / 100)"
      using ne by (simp add: attendance_stats_of_def Let_def cnt percentage_of_def py_round2_def)
    have n1: "\<bar>?q * 100 - of_int ?n\<bar> \<le> 1 / 2" by (rule round_half_even_nearest)
    have n2: "\<bar>?q * 100 - of_int ?n\<bar> = 1 / 2 \<longrightarrow> even ?n"
      using round_half_even_tie[of "?q * 100"] by blast
    have n3: "?L < 2 ^ 32 \<longrightarrow> \<bar>of_nat ?P / of_nat ?L * 100 - (of_int ?n :: rat) / 100\<bar> \<le> 1 / 200"
    proof
      assume lt: "?L < 2 ^ 32"
      have "\<bar>of_nat ?P / of_nat ?L * 100 * 100 - (of_int ?n :: rat)\<bar> \<le> 1 / 2"
        by (rule percentage_nearest_exact[OF lp _ lt n1]) simp
      then show "\<bar>of_nat ?P / of_nat ?L * 100 - (of_int ?n :: rat) / 100\<bar> \<le> 1 / 200"
        by (rule hundredth_of_scaled)
    qed
    show "\<exists>n::int.
           ats_percentage (attendance_stats_of c course_id records) = float_of (of_int n / 100)
           \<and> \<bar>?q * 100 - of_int n\<bar> \<le> 1 / 2
           \<and> (\<bar>?q * 100 - of_int n\<bar> = 1 / 2 \<longrightarrow> even n)
           \<and> (?L < 2 ^ 32 \<longrightarrow> \<bar>of_nat ?P / of_nat ?L * 100 - (of_int n :: rat) / 100\<bar> \<le> 1 / 200)"
      by (insert p n1 n2 n3, rule exI[of _ ?n], intro conjI; assumption)
  qed
  have g: "get_course_attendance c course_id h = Some (records, h') \<longrightarrow>
        get_course_attendance_percentage c course_id h
          = Some (attendance_stats_of c course_id records, h')"
    by (simp add: get_course_attendance_percentage_def)
  show ?thesis by (insert a b d f e g, intro conjI; assumption)
qed

theorem attendance_percentage_witness:
  "ats_percentage (attendance_stats_of example_client ''_1_1''
       [\<lparr>att_status = Some ''present'', att_meeting = None\<rparr>,
        \<lparr>att_status = Some ''absent'', att_meeting = None\<rparr>,
        \<lparr>att_status = Some ''present'', att_meeting = None\<rparr>,
        \<lparr>att_status = Some ''unknown'', att_meeting = None\<rparr>]) = 50
   \<and> ats_percentage (attendance_stats_of example_client ''_1_1'' []) = 0
   \<and> py_round2 (percentage_of 23 160) = 8089590830664253 / 562949953421312
   \<and> float_of (1437 / 100) = 8089590830664253 / 562949953421312
   \<and> map_option fst (get_course_attendance_percentage example_client ''_1_1'' [])
       = Some \<lparr>ats_course_id = ''_1_1'', ats_course_name = Some ''Gestion de projet'',
                ats_present = 2, ats_absent = 1, ats_total = 4, ats_percentage = 50\<rparr>"
proof -
  let ?rs = "[\<lparr>att_status = Some ''present'', att_meeting = None\<rparr>,
        \<lparr>att_status = Some ''absent'', att_meeting = None\<rparr>,
        \<lparr>att_status = Some ''present'', att_meeting = None\<rparr>,
        \<lparr>att_status = Some ''unknown'', att_meeting = None\<rparr>]"
  have lw: "py_lower ''present'' = ''present''" "py_lower ''absent'' = ''absent''"
       "py_lower ''unknown'' = ''unknown''"
    by code_simp+
  have p4: "length (filter is_present ?rs) = 2"
    by (simp add: is_present_def or_empty_def lw)
  have q4: "float_of (float_of (2 / 4) * 100) * 100 = 5000" by code_simp
  have f50: "float_of (5000 / 100) = 50" by code_simp
  have ne: "?rs \<noteq> []" by simp
  note ex = attendance_percentage[where c = example_client and course_id = "''_1_1''"
      and records = ?rs, THEN conjunct2, THEN conjunct2, THEN conjunct2, THEN conjunct2,
      THEN conjunct1, THEN mp, OF ne]
  from ex obtain n :: int where n:
      "ats_percentage (attendance_stats_of example_client ''_1_1'' ?rs) = float_of (of_int n / 100)"
      "\<bar>float_of (float_of (of_nat (length (filter is_present ?rs)) / of_nat (length ?rs)) * 100) * 100
         - of_int n\<bar> \<le> 1 / 2"
    by blast
  have "\<bar>5000 - (of_int n :: rat)\<bar> \<le> 1 / 2" using n(2) unfolding p4 using q4 by simp
  then have "\<bar>(of_int (5000 - n) :: rat)\<bar> < 1" by simp
  then have "\<bar>5000 - n\<bar> < 1" by (metis of_int_abs of_int_less_1_iff)
  then have "n = 5000" by linarith
  then have v4: "ats_percentage (attendance_stats_of example_client ''_1_1'' ?rs) = 50"
    using n(1) f50 by simp
  have v0: "ats_percentage (attendance_stats_of example_client ''_1_1'' []) = 0"
    by (rule attendance_percentage[THEN conjunct2, THEN conjunct2, THEN conjunct2,
          THEN conjunct1, THEN mp]) simp
  have vb: "py_round2 (percentage_of 23 160) = 8089590830664253 / 562949953421312" by code_simp
  have fb: "float_of (1437 / 100) = 8089590830664253 / 562949953421312" by code_simp
  have run: "map_option fst (get_course_attendance_percentage example_client ''_1_1'' [])
       = Some \<lparr>ats_course_id = ''_1_1'', ats_course_name = Some ''Gestion de projet'',
                ats_present = 2, ats_absent = 1, ats_total = 4, ats_percentage = 50\<rparr>"
    by code_simp
  show ?thesis by (insert v4 v0 vb fb run, intro conjI; assumption)
qed

section \<open>The on-time rate and the two flags\<close>
















section \<open>Cached courses without an internal identifier\<close>

text \<open>
  The three loops pass over a record whose \<open>internal_id\<close> is missing or empty.
\<close>

lemma get_assignments_loop_skip:
  "\<not> truthy (cc_internal_id course) \<Longrightarrow>
     get_assignments_loop c (cs1 @ course # cs2) acc h = get_assignments_loop c (cs1 @ cs2) acc h"
  by (induction cs1 arbitrary: acc h)
     (auto split: option.splits sum.splits error.splits prod.splits)

lemma assignment_stats_loop_skip:
  "\<not> truthy (cc_internal_id course) \<Longrightarrow>
     assignment_stats_loop c (cs1 @ course # cs2) st tot h
       = assignment_stats_loop c (cs1 @ cs2) st tot h"
  by (induction cs1 arbitrary: st tot h)
     (auto simp: Let_def split: option.splits sum.splits error.splits prod.splits)

lemma attendance_loop_skip:
  "\<not> truthy (cc_internal_id course) \<Longrightarrow>
     attendance_loop c (cs1 @ course # cs2) st tot h = attendance_loop c (cs1 @ cs2) st tot h"
  by (induction cs1 arbitrary: st tot h)
     (auto simp: Let_def split: option.splits prod.splits)

text \<open>
  The cache enters \<open>get_course_assignments\<close> through the course name only: the columns
  loop does not read it, and the name it is given ends in the \<open>course_name\<close> field.
\<close>

lemma column_assignment_cached:
  "column_assignment (c\<lparr>cached := x\<rparr>) course_id nm col h = column_assignment c course_id nm col h"
  by (simp add: column_assignment_def Let_def split_beta
        cong: option.case_cong sum.case_cong if_cong)

lemma columns_loop_cached:
  "columns_loop (c\<lparr>cached := x\<rparr>) course_id nm cols acc h = columns_loop c course_id nm cols acc h"
  by (induction cols arbitrary: acc h)
     (simp_all add: column_assignment_cached split: prod.splits option.splits)

lemma column_assignment_name:
  "column_assignment c course_id None col h
     = map_prod (map_option (\<lambda>a. a\<lparr>a_course_name := None\<rparr>)) id
         (column_assignment c course_id nm col h)"
  by (simp add: column_assignment_def Let_def split_beta
        cong: option.case_cong sum.case_cong if_cong)

lemma columns_loop_name:
  "map_prod (map (\<lambda>a. a\<lparr>a_course_name := None\<rparr>)) id (columns_loop c course_id nm cols acc h)
     = columns_loop c course_id None cols (map (\<lambda>a. a\<lparr>a_course_name := None\<rparr>) acc) h"
proof (induction cols arbitrary: acc h)
  case Nil
  then show ?case by simp
next
  case (Cons col cols)
  obtain ao h1 where ca: "column_assignment c course_id nm col h = (ao, h1)"
    by (cases "column_assignment c course_id nm col h")
  have cn: "column_assignment c course_id None col h
              = (map_option (\<lambda>a. a\<lparr>a_course_name := None\<rparr>) ao, h1)"
    using column_assignment_name[of c course_id col h nm] ca by simp
  show ?case
    using Cons.IH ca cn by (cases ao) simp_all
qed

lemma columns_loop_drop:
  "map_prod (map drop_course_name) id (columns_loop c course_id nm cols [] h)
     = columns_loop c course_id None cols [] h"
  using columns_loop_name[of c course_id nm cols "[]" h]
  by (simp add: drop_course_name_def[abs_def])

text \<open>
  What \<open>get_course_assignments\<close> returns, up to the course name of the assignments,
  does not depend on the cache; so for the loops, which overwrite the per-course name.
\<close>

lemma get_course_assignments_cached:
  "map_option (map_prod (map_sum id (map drop_course_name)) id)
       (get_course_assignments (c\<lparr>cached := x\<rparr>) course_id h)
     = map_option (map_prod (map_sum id (map drop_course_name)) id)
         (get_course_assignments c course_id h)"
proof (cases "get_paginated_v2 (domain c) (session_columns c)
                (''/courses/'' @ course_id @ ''/gradebook/columns'') None h")
  case None
  then show ?thesis by (simp add: get_course_assignments_def)
next
  case (Some r)
  obtain res h1 where r: "r = (res, h1)" by (cases r)
  show ?thesis
  proof (cases res)
    case (Inl e)
    then show ?thesis using Some r by (simp add: get_course_assignments_def)
  next
    case (Inr columns)
    have l1: "\<And>nm. map drop_course_name (fst (columns_loop c course_id nm columns [] h1))
               = fst (columns_loop c course_id None columns [] h1)"
      by (metis columns_loop_drop fst_map_prod)
    have l2: "\<And>nm. snd (columns_loop c course_id nm columns [] h1)
               = snd (columns_loop c course_id None columns [] h1)"
      by (metis columns_loop_drop snd_map_prod id_apply)
    show ?thesis
      using Some r Inr
      by (simp add: get_course_assignments_def Let_def split_beta columns_loop_cached l1
            l2[of "find_course_name cs course_id" for cs])
  qed
qed

lemma drop_course_name_update:
  "drop_course_name (if \<not> truthy (a_course_name a) then a\<lparr>a_course_name := nm\<rparr> else a)
     = drop_course_name a"
  by (simp add: drop_course_name_def)

lemma get_assignments_loop_cached:
  "map drop_course_name acc' = map drop_course_name acc \<Longrightarrow>
   map_option (map_prod (map_sum id (map drop_course_name)) id)
       (get_assignments_loop (c\<lparr>cached := x\<rparr>) cs acc' h)
     = map_option (map_prod (map_sum id (map drop_course_name)) id)
         (get_assignments_loop c cs acc h)"
proof (induction cs arbitrary: acc acc' h)
  case Nil
  then show ?case by simp
next
  case (Cons course rest)
  let ?F = "map_option (map_prod (map_sum id (map drop_course_name)) id)"
  let ?iid = "the (cc_internal_id course)"
  show ?case
  proof (cases "truthy (cc_internal_id course)")
    case False
    then show ?thesis using Cons.IH[OF Cons.prems] by simp
  next
    case True
    have eq: "?F (get_course_assignments (c\<lparr>cached := x\<rparr>) ?iid h)
                = ?F (get_course_assignments c ?iid h)"
      by (rule get_course_assignments_cached)
    show ?thesis
    proof (cases "get_course_assignments c ?iid h")
      case None
      then have "get_course_assignments (c\<lparr>cached := x\<rparr>) ?iid h = None" using eq by simp
      then show ?thesis using None True by simp
    next
      case (Some r)
      obtain res h1 where r: "r = (res, h1)" by (cases r)
      obtain res' where r': "get_course_assignments (c\<lparr>cached := x\<rparr>) ?iid h = Some (res', h1)"
        and rr: "map_sum id (map drop_course_name) res' = map_sum id (map drop_course_name) res"
        using eq Some r by (cases "get_course_assignments (c\<lparr>cached := x\<rparr>) ?iid h") auto
      show ?thesis
      proof (cases res)
        case (Inl e)
        then have "res' = Inl e" using rr by (cases res') auto
        then show ?thesis
          using Cons.IH[OF Cons.prems, of h1] True Some r r' Inl by (cases e) simp_all
      next
        case (Inr as)
        then obtain as' where as': "res' = Inr as'"
            and d: "map drop_course_name as' = map drop_course_name as"
          using rr by (cases res') auto
        let ?u = "\<lambda>a. if \<not> truthy (a_course_name a)
                       then a\<lparr>a_course_name := cc_name course\<rparr> else a"
        have "map drop_course_name (acc' @ map ?u as') = map drop_course_name (acc @ map ?u as)"
          using Cons.prems d by (simp add: drop_course_name_update o_def)
        from Cons.IH[OF this, of h1] show ?thesis
          using True Some r r' Inr as' by simp
      qed
    qed
  qed
qed

lemma count_assignments_drop:
  "count_assignments (map drop_course_name as) n = count_assignments as n"
  by (induction as arbitrary: n) (simp_all add: drop_course_name_def)

lemma course_stats_of_drop:
  "(course_stats_of course_id (map drop_course_name as))\<lparr>cas_course_name := nm\<rparr>
     = (course_stats_of course_id as)\<lparr>cas_course_name := nm\<rparr>"
  by (simp add: course_stats_of_def Let_def count_assignments_drop)

lemma assignment_stats_loop_cached:
  "assignment_stats_loop (c\<lparr>cached := x\<rparr>) cs st tot h = assignment_stats_loop c cs st tot h"
proof (induction cs arbitrary: st tot h)
  case Nil
  then show ?case by simp
next
  case (Cons course rest)
  let ?F = "map_option (map_prod (map_sum id (map drop_course_name)) id)"
  let ?iid = "the (cc_internal_id course)"
  show ?case
  proof (cases "truthy (cc_internal_id course)")
    case False
    then show ?thesis using Cons.IH by simp
  next
    case True
    have eq: "?F (get_course_assignments (c\<lparr>cached := x\<rparr>) ?iid h)
                = ?F (get_course_assignments c ?iid h)"
      by (rule get_course_assignments_cached)
    show ?thesis
    proof (cases "get_course_assignments c ?iid h")
      case None
      then have "get_course_assignments (c\<lparr>cached := x\<rparr>) ?iid h = None" using eq by simp
      then show ?thesis using None True by (simp add: get_course_assignment_stats_def)
    next
      case (Some r)
      obtain res h1 where r: "r = (res, h1)" by (cases r)
      obtain res' where r': "get_course_assignments (c\<lparr>cached := x\<rparr>) ?iid h = Some (res', h1)"
        and rr: "map_sum id (map drop_course_name) res' = map_sum id (map drop_course_name) res"
        using eq Some r by (cases "get_course_assignments (c\<lparr>cached := x\<rparr>) ?iid h") auto
      show ?thesis
      proof (cases res)
        case (Inl e)
        then have "res' = Inl e" using rr by (cases res') auto
        then show ?thesis
          using Cons.IH True Some r r' Inl
          by (cases e) (simp_all add: get_course_assignment_stats_def)
      next
        case (Inr as)
        then obtain as' where as': "res' = Inr as'"
            and d: "map drop_course_name as' = map drop_course_name as"
          using rr by (cases res') auto
        have "(course_stats_of ?iid as')\<lparr>cas_course_name := cc_name course\<rparr>
                = (course_stats_of ?iid as)\<lparr>cas_course_name := cc_name course\<rparr>"
          using course_stats_of_drop[where course_id = ?iid and as = as' and nm = "cc_name course"]
                course_stats_of_drop[where course_id = ?iid and as = as and nm = "cc_name course"] d
          by simp
        then show ?thesis
          using Cons.IH True Some r r' Inr as'
          by (simp add: get_course_assignment_stats_def Let_def)
      qed
    qed
  qed
qed

lemma meetings_loop_cached:
  "meetings_loop (c\<lparr>cached := x\<rparr>) course_id ms acc h = meetings_loop c course_id ms acc h"
  by (induction ms arbitrary: acc h) (simp_all split: prod.splits sum.splits)

lemma get_course_attendance_cached:
  "get_course_attendance (c\<lparr>cached := x\<rparr>) course_id h = get_course_attendance c course_id h"
  by (simp add: get_course_attendance_def meetings_loop_cached
        split: option.splits prod.splits sum.splits)

lemma attendance_loop_cached:
  "attendance_loop (c\<lparr>cached := x\<rparr>) cs st tot h = attendance_loop c cs st tot h"
proof (induction cs arbitrary: st tot h)
  case Nil
  then show ?case by simp
next
  case (Cons course rest)
  show ?case
    using Cons.IH
    by (simp add: get_course_attendance_percentage_def get_course_attendance_cached
          attendance_stats_of_def Let_def split_beta split: option.splits)
qed

lemma find_course_name_skip:
  "\<not> (truthy (cc_course_id course) \<and> py_in (the (cc_course_id course)) iid) \<Longrightarrow>
   find_course_name (cs1 @ course # cs2) iid = find_course_name (cs1 @ cs2) iid"
  by (induction cs1) auto

lemma get_course_assignments_same_name:
  assumes "(if cached c \<noteq> None then find_course_name (courses_of c) iid else None)
             = (if x \<noteq> None then find_course_name (courses_of (c\<lparr>cached := x\<rparr>)) iid else None)"
  shows "get_course_assignments (c\<lparr>cached := x\<rparr>) iid h = get_course_assignments c iid h"
proof -
  have "(if cached (c\<lparr>cached := x\<rparr>) \<noteq> None
         then find_course_name (courses_of (c\<lparr>cached := x\<rparr>)) iid else None)
        = (if cached c \<noteq> None then find_course_name (courses_of c) iid else None)"
    using assms by simp
  then show ?thesis
    unfolding get_course_assignments_def Let_def
    by (simp add: columns_loop_cached cong: option.case_cong prod.case_cong sum.case_cong)
qed

lemma get_assignments_loop_same_names:
  assumes "\<forall>l\<in>set cs. truthy (cc_internal_id l) \<longrightarrow>
             (if cached c \<noteq> None then find_course_name (courses_of c) (the (cc_internal_id l)) else None)
               = (if x \<noteq> None
                  then find_course_name (courses_of (c\<lparr>cached := x\<rparr>)) (the (cc_internal_id l))
                  else None)"
  shows "get_assignments_loop (c\<lparr>cached := x\<rparr>) cs acc h = get_assignments_loop c cs acc h"
  using assms
proof (induction cs arbitrary: acc h)
  case Nil
  then show ?case by simp
next
  case (Cons course rest)
  have ih: "\<And>acc h. get_assignments_loop (c\<lparr>cached := x\<rparr>) rest acc h
                      = get_assignments_loop c rest acc h"
    using Cons.IH Cons.prems by simp
  show ?case
  proof (cases "truthy (cc_internal_id course)")
    case False
    then show ?thesis using ih by simp
  next
    case True
    have "get_course_assignments (c\<lparr>cached := x\<rparr>) (the (cc_internal_id course)) h
            = get_course_assignments c (the (cc_internal_id course)) h"
      using Cons.prems True by (intro get_course_assignments_same_name) simp
    then show ?thesis using ih True
      by (simp split: option.splits sum.splits error.splits prod.splits)
  qed
qed

text \<open>
  C9 as stated fails: a record without \<open>internal_id\<close> whose \<open>course_id\<close> is \<open>1\<close>
  gives its name to the assignments of the course \<open>_1_1\<close>, so \<open>get_assignments\<close> does not
  return what it returns on the cache without the record.
\<close>

theorem inert_course_names_counterexample:
  "\<not> truthy (cc_internal_id shadow_course)
   \<and> courses_of shadowed_client = [shadow_course, live_course]
   \<and> (case get_assignments shadowed_client [] of
        Some (Inr xs, h) \<Rightarrow> Some (map a_name xs, map a_course_name xs) | _ \<Rightarrow> None)
       = Some ([''TP1'', ''Unknown''], [Some ''Old course'', Some ''Old course''])
   \<and> (case get_assignments
               (shadowed_client\<lparr>cached := Some \<lparr>cd_courses = Some [live_course]\<rparr>\<rparr>) [] of
        Some (Inr xs, h) \<Rightarrow> Some (map a_name xs, map a_course_name xs) | _ \<Rightarrow> None)
       = Some ([''TP1'', ''Unknown''], [Some ''Gestion de projet'', Some ''Gestion de projet''])
   \<and> get_assignments shadowed_client []
       \<noteq> get_assignments (shadowed_client\<lparr>cached := Some \<lparr>cd_courses = Some [live_course]\<rparr>\<rparr>) []"
proof -
  have a: "\<not> truthy (cc_internal_id shadow_course)" by (simp add: shadow_course_def truthy_def)
  have b: "courses_of shadowed_client = [shadow_course, live_course]"
    by (simp add: shadowed_client_def courses_of_def)
  have r1: "(case get_assignments shadowed_client [] of
        Some (Inr xs, h) \<Rightarrow> Some (map a_name xs, map a_course_name xs) | _ \<Rightarrow> None)
       = Some ([''TP1'', ''Unknown''], [Some ''Old course'', Some ''Old course''])"
    by code_simp
  have r2: "(case get_assignments
               (shadowed_client\<lparr>cached := Some \<lparr>cd_courses = Some [live_course]\<rparr>\<rparr>) [] of
        Some (Inr xs, h) \<Rightarrow> Some (map a_name xs, map a_course_name xs) | _ \<Rightarrow> None)
       = Some ([''TP1'', ''Unknown''], [Some ''Gestion de projet'', Some ''Gestion de projet''])"
    by code_simp
  have ne: "get_assignments shadowed_client []
       \<noteq> get_assignments (shadowed_client\<lparr>cached := Some \<lparr>cd_courses = Some [live_course]\<rparr>\<rparr>) []"
  proof
    assume "get_assignments shadowed_client []
       = get_assignments (shadowed_client\<lparr>cached := Some \<lparr>cd_courses = Some [live_course]\<rparr>\<rparr>) []"
    then show False using r1 r2 by simp
  qed
  show ?thesis by (insert a b r1 r2 ne, intro conjI; assumption)
qed

text \<open>
  C9 (amended). A cached course whose \<open>internal_id\<close> is missing or empty is skipped
  by the loops of \<open>get_assignments\<close>, \<open>get_assignment_stats\<close> and
  \<open>get_attendance_percentage\<close>. \<open>get_assignment_stats\<close> and
  \<open>get_attendance_percentage\<close> return what they return on the cache without the record:
  the same entries, requests and errors. So does \<open>get_assignments\<close> up to the
  \<open>course_name\<close> of the assignments, and exactly when the \<open>course_id\<close> of the record is
  missing, empty or occurs in the internal identifier of no other cached course.
\<close>

theorem inert_course_skipped:
  assumes "\<not> truthy (cc_internal_id course)"
    and "cached c = Some cd"
    and "cd_courses cd = Some (cs1 @ course # cs2)"
  shows "get_assignment_stats c h
           = get_assignment_stats (c\<lparr>cached := Some (cd\<lparr>cd_courses := Some (cs1 @ cs2)\<rparr>)\<rparr>) h
       \<and> get_attendance_percentage c h
           = get_attendance_percentage (c\<lparr>cached := Some (cd\<lparr>cd_courses := Some (cs1 @ cs2)\<rparr>)\<rparr>) h
       \<and> map_option (map_prod (map_sum id (map drop_course_name)) id) (get_assignments c h)
           = map_option (map_prod (map_sum id (map drop_course_name)) id)
               (get_assignments (c\<lparr>cached := Some (cd\<lparr>cd_courses := Some (cs1 @ cs2)\<rparr>)\<rparr>) h)
       \<and> ((\<forall>l\<in>set (cs1 @ cs2). truthy (cc_internal_id l) \<longrightarrow>
              \<not> (truthy (cc_course_id course)
                  \<and> py_in (the (cc_course_id course)) (the (cc_internal_id l))))
            \<longrightarrow> get_assignments c h
                  = get_assignments (c\<lparr>cached := Some (cd\<lparr>cd_courses := Some (cs1 @ cs2)\<rparr>)\<rparr>) h)"
proof -
  let ?x = "Some (cd\<lparr>cd_courses := Some (cs1 @ cs2)\<rparr>)"
  let ?c' = "c\<lparr>cached := ?x\<rparr>"
  have co: "courses_of c = cs1 @ course # cs2" using assms(2,3) by (simp add: courses_of_def)
  have co': "courses_of ?c' = cs1 @ cs2" by (simp add: courses_of_def)
  have nc: "(cached c = None) = False" using assms(2) by simp
  have nc': "(cached ?c' = None) = False" by simp
  have a: "get_assignment_stats c h = get_assignment_stats ?c' h"
    unfolding get_assignment_stats_def nc nc' co co'
    by (simp only: assignment_stats_loop_skip[OF assms(1)] assignment_stats_loop_cached if_False)
  have b: "get_attendance_percentage c h = get_attendance_percentage ?c' h"
    unfolding get_attendance_percentage_def nc nc' co co'
    by (simp only: attendance_loop_skip[OF assms(1)] attendance_loop_cached if_False)
  have d: "map_option (map_prod (map_sum id (map drop_course_name)) id) (get_assignments c h)
           = map_option (map_prod (map_sum id (map drop_course_name)) id) (get_assignments ?c' h)"
    unfolding get_assignments_def nc nc' co co'
    by (simp only: get_assignments_loop_skip[OF assms(1)] if_False
          get_assignments_loop_cached[OF refl, where c = c and x = ?x and cs = "cs1 @ cs2" and h = h])
  have e: "(\<forall>l\<in>set (cs1 @ cs2). truthy (cc_internal_id l) \<longrightarrow>
              \<not> (truthy (cc_course_id course)
                  \<and> py_in (the (cc_course_id course)) (the (cc_internal_id l))))
            \<longrightarrow> get_assignments c h = get_assignments ?c' h"
  proof
    assume n: "\<forall>l\<in>set (cs1 @ cs2). truthy (cc_internal_id l) \<longrightarrow>
              \<not> (truthy (cc_course_id course)
                  \<and> py_in (the (cc_course_id course)) (the (cc_internal_id l)))"
    have "\<forall>l\<in>set (cs1 @ cs2). truthy (cc_internal_id l) \<longrightarrow>
             (if cached c \<noteq> None then find_course_name (courses_of c) (the (cc_internal_id l)) else None)
               = (if ?x \<noteq> None
                  then find_course_name (courses_of ?c') (the (cc_internal_id l))
                  else None)"
      unfolding co co' using n assms(2) by (auto simp: find_course_name_skip)
    then have "get_assignments_loop ?c' (cs1 @ cs2) [] h = get_assignments_loop c (cs1 @ cs2) [] h"
      by (rule get_assignments_loop_same_names)
    then show "get_assignments c h = get_assignments ?c' h"
      unfolding get_assignments_def nc nc' co co'
      by (simp only: get_assignments_loop_skip[OF assms(1)] if_False)
  qed
  show ?thesis by (insert a b d e, intro conjI; assumption)
qed

theorem inert_course_skipped_witness:
  "get_assignment_stats example_client []
     = get_assignment_stats (example_client\<lparr>cached := Some \<lparr>cd_courses = Some [live_course]\<rparr>\<rparr>) []
   \<and> get_attendance_percentage example_client []
     = get_attendance_percentage
         (example_client\<lparr>cached := Some \<lparr>cd_courses = Some [live_course]\<rparr>\<rparr>) []
   \<and> get_assignments example_client []
     = get_assignments (example_client\<lparr>cached := Some \<lparr>cd_courses = Some [live_course]\<rparr>\<rparr>) []
   \<and> (case get_assignments example_client [] of
        Some (Inr xs, h) \<Rightarrow> Some (map a_name xs, map a_course_name xs) | _ \<Rightarrow> None)
       = Some ([''TP1'', ''Unknown''], [Some ''Gestion de projet'', Some ''Gestion de projet''])
   \<and> get_assignment_stats shadowed_client []
     = get_assignment_stats (shadowed_client\<lparr>cached := Some \<lparr>cd_courses = Some [live_course]\<rparr>\<rparr>) []
   \<and> map_option (map_prod (map_sum id (map drop_course_name)) id) (get_assignments shadowed_client [])
     = map_option (map_prod (map_sum id (map drop_course_name)) id)
         (get_assignments (shadowed_client\<lparr>cached := Some \<lparr>cd_courses = Some [live_course]\<rparr>\<rparr>) [])"
proof -
  let ?cd = "\<lparr>cd_courses = Some [inert_course, live_course]\<rparr>"
  have h1: "\<not> truthy (cc_internal_id inert_course)" by (simp add: inert_course_def truthy_def)
  have h2: "cached example_client = Some ?cd" by (simp add: example_client_def)
  have h3: "cd_courses ?cd = Some ([] @ inert_course # [live_course])" by simp
  have i: "py_in ''ESE.OLD'' ''_1_1'' = False" by code_simp
  have n: "\<forall>l\<in>set ([] @ [live_course]). truthy (cc_internal_id l) \<longrightarrow>
              \<not> (truthy (cc_course_id inert_course)
                  \<and> py_in (the (cc_course_id inert_course)) (the (cc_internal_id l)))"
    by (simp add: inert_course_def live_course_def i del: py_in.simps)
  note t = inert_course_skipped[OF h1 h2 h3, of "[]", simplified]
  have a: "get_assignment_stats example_client []
     = get_assignment_stats (example_client\<lparr>cached := Some \<lparr>cd_courses = Some [live_course]\<rparr>\<rparr>) []"
    using t by blast
  have b: "get_attendance_percentage example_client []
     = get_attendance_percentage
         (example_client\<lparr>cached := Some \<lparr>cd_courses = Some [live_course]\<rparr>\<rparr>) []"
    using t by blast
  have d: "get_assignments example_client []
     = get_assignments (example_client\<lparr>cached := Some \<lparr>cd_courses = Some [live_course]\<rparr>\<rparr>) []"
    using t n by simp
  have r: "(case get_assignments example_client [] of
        Some (Inr xs, h) \<Rightarrow> Some (map a_name xs, map a_course_name xs) | _ \<Rightarrow> None)
       = Some ([''TP1'', ''Unknown''], [Some ''Gestion de projet'', Some ''Gestion de projet''])"
    by code_simp
  let ?sd = "\<lparr>cd_courses = Some [shadow_course, live_course]\<rparr>"
  have s1: "\<not> truthy (cc_internal_id shadow_course)" by (simp add: shadow_course_def truthy_def)
  have s2: "cached shadowed_client = Some ?sd" by (simp add: shadowed_client_def)
  have s3: "cd_courses ?sd = Some ([] @ shadow_course # [live_course])" by simp
  note u = inert_course_skipped[OF s1 s2 s3, of "[]", simplified]
  have e: "get_assignment_stats shadowed_client []
     = get_assignment_stats (shadowed_client\<lparr>cached := Some \<lparr>cd_courses = Some [live_course]\<rparr>\<rparr>) []"
    using u by blast
  have f: "map_option (map_prod (map_sum id (map drop_course_name)) id) (get_assignments shadowed_client [])
     = map_option (map_prod (map_sum id (map drop_course_name)) id)
         (get_assignments (shadowed_client\<lparr>cached := Some \<lparr>cd_courses = Some [live_course]\<rparr>\<rparr>) [])"
    using u by blast
  show ?thesis by (insert a b d r e f, intro conjI; assumption)
qed

end
